theory Spec2Isabelle
  imports Main
begin

section \<open>Values, records and the store\<close>

text \<open>
  A shallow embedding of the relation linking code of js-data:
  \<^verbatim>\<open>src/Relation/BelongsTo.js\<close>, \<^verbatim>\<open>src/Relation/HasOne.js\<close> and the \<^verbatim>\<open>DataStore\<close>
  component. JavaScript objects are mutable and compared by identity, so records live in
  an explicit heap addressed by references, and every function that mutates takes the
  store and returns the updated one.
\<close>

type_synonym ref = nat

text \<open>
  The scalar values a field can hold. Numbers are integers here: identifiers and
  timestamps are the only numbers the linking code looks at.
\<close>

datatype val = Undefined | Null | Bool bool | Num int | Str string

text \<open>JavaScript truthiness, as used by \<^verbatim>\<open>if (x)\<close> and \<^verbatim>\<open>x && y\<close>.\<close>

fun truthy :: "val \<Rightarrow> bool" where
  "truthy Undefined = False"
| "truthy Null = False"
| "truthy (Bool b) = b"
| "truthy (Num n) = (n \<noteq> 0)"
| "truthy (Str s) = (s \<noteq> [])"

text \<open>
  What a link slot (\<^verbatim>\<open>links.<localField>\<close>) holds: nothing, one record (to-one
  relations) or an array of records (to-many relations).
\<close>

datatype link = Unlinked | One ref | Many "ref list"

text \<open>
  A record object: its scalar fields (read by \<^verbatim>\<open>utils.get\<close>, written by
  \<^verbatim>\<open>safeSetProp\<close>; a field that was never written reads \<^verbatim>\<open>undefined\<close>), its link slots
  and the private \<^verbatim>\<open>$\<close> entry, which a collection sets to a timestamp when the record
  is added to it.
\<close>

record obj =
  props :: "string \<Rightarrow> val"
  links :: "string \<Rightarrow> link"
  dollar :: val

text \<open>
  The store: the heap of record objects, the collections (one per mapper name, keyed by
  identifier) and the secondary indexes of each collection (collection name, indexed
  field, field value, bucket).
\<close>

record store =
  heap :: "ref \<Rightarrow> obj"
  collections :: "string \<Rightarrow> val \<Rightarrow> ref option"
  indexes :: "string \<Rightarrow> string \<Rightarrow> val \<Rightarrow> ref list"

text \<open>
  What can be thrown: the TypeError of JavaScript itself, an \<^verbatim>\<open>Error\<close> with its message,
  and the configuration error of section 7 with the relation kind it is about.
\<close>

datatype error = TypeError | Error string | ConfigurationError string

text \<open>
  A relation definition may bring its own accessors, \<^verbatim>\<open>def.get\<close> and \<^verbatim>\<open>def.set\<close>. They
  are functions of the user: \<^verbatim>\<open>def.get(def, this, orig)\<close> takes the record and the
  original getter, \<^verbatim>\<open>def.set(def, this, related, orig)\<close> the record, the assigned value
  and the original setter. Like any call they may write to the store and may throw.
\<close>

type_synonym custom_get =
  "ref \<Rightarrow> (store \<Rightarrow> (error + link) \<times> store) \<Rightarrow> store \<Rightarrow> (error + link) \<times> store"

type_synonym custom_set =
  "ref \<Rightarrow> ref option \<Rightarrow> (ref option \<Rightarrow> store \<Rightarrow> (error + ref option) \<times> store)
     \<Rightarrow> store \<Rightarrow> (error + ref option) \<times> store"

section \<open>Relation definitions\<close>

definition belongsToType :: string where "belongsToType = ''belongsTo''"
definition hasManyType :: string where "hasManyType = ''hasMany''"
definition hasOneType :: string where "hasOneType = ''hasOne''"

text \<open>
  The fields of a relation definition \<^verbatim>\<open>def\<close> that the code reads. The last three steer
  how \<^verbatim>\<open>defineMapper\<close> finishes a descriptor: \<^verbatim>\<open>def.enumerable\<close>, \<^verbatim>\<open>def.get\<close> and
  \<^verbatim>\<open>def.set\<close>, each \<^verbatim>\<open>None\<close> when undefined.
\<close>

record relation_def =
  type :: string
  relation :: string
  foreignKey :: string
  localField :: string
  def_enumerable :: "bool option"
  def_get :: "custom_get option"
  def_set :: "custom_set option"

text \<open>
  What the code reads of a mapper: \<^verbatim>\<open>mapper.idAttribute\<close> and \<^verbatim>\<open>mapper.relationList\<close>.
\<close>

record mapper =
  idAttribute :: string
  relationList :: "relation_def list"

text \<open>
  What the closure built by \<^verbatim>\<open>createDescriptor (mapper, def, name, store)\<close> captures:
  \<^verbatim>\<open>mapper\<close>, \<^verbatim>\<open>def\<close> and \<^verbatim>\<open>name\<close>. The class \<^verbatim>\<open>Relation\<close> is not among the sources,
  so the results of its two lookups are part of the environment:
  \<^verbatim>\<open>def.getRelation().idAttribute\<close> and \<^verbatim>\<open>def.getInverse(mapper)\<close>, which is \<^verbatim>\<open>None\<close>
  when the related mapper declares no inverse.
\<close>

record descriptor_env =
  mapper :: mapper
  rdef :: relation_def
  name :: string
  relatedIdAttribute :: string
  getInverse :: "relation_def option"

section \<open>Helpers of utils, Record and the collections\<close>

text \<open>\<^verbatim>\<open>utils.get(record, field)\<close> on a scalar field.\<close>

definition utils_get :: "store \<Rightarrow> ref \<Rightarrow> string \<Rightarrow> val" where
  "utils_get s r f = props (heap s r) f"

text \<open>
  \<^verbatim>\<open>record._get('links.' + field)\<close>, which is also what reading a link field gives:
  \<^verbatim>\<open>defineMapper\<close> installs \<^verbatim>\<open>function () { return this._get(path) }\<close> as the getter
  of a descriptor that brings none.
\<close>

definition Record_get_link :: "store \<Rightarrow> ref \<Rightarrow> string \<Rightarrow> link" where
  "Record_get_link s r f = links (heap s r) f"

text \<open>\<^verbatim>\<open>record._get('$')\<close>.\<close>

definition Record_get_dollar :: "store \<Rightarrow> ref \<Rightarrow> val" where
  "Record_get_dollar s r = dollar (heap s r)"

text \<open>
  Modelled from the spec: \<^verbatim>\<open>utils.safeSetLink\<close> is not among the sources. The link field
  is "backed by a plain stored slot for the resolved value" (section 9); the call writes
  that slot and runs no linking algorithm.
\<close>

definition safeSetLink :: "ref \<Rightarrow> string \<Rightarrow> link \<Rightarrow> store \<Rightarrow> store" where
  "safeSetLink r f v s =
     s\<lparr>heap := (heap s)(r := (heap s r)\<lparr>links := (links (heap s r))(f := v)\<rparr>)\<rparr>"

text \<open>
  Modelled from the spec: \<^verbatim>\<open>utils.safeSetProp\<close> is not among the sources. It "writes the
  raw FK value" (section 4.3): the stored scalar field changes and nothing else.
\<close>

definition safeSetProp :: "ref \<Rightarrow> string \<Rightarrow> val \<Rightarrow> store \<Rightarrow> store" where
  "safeSetProp r f v s =
     s\<lparr>heap := (heap s)(r := (heap s r)\<lparr>props := (props (heap s r))(f := v)\<rparr>)\<rparr>"

text \<open>
  Modelled from the spec: \<^verbatim>\<open>Collection.updateIndex\<close> is not among the sources. Section 4.2:
  it "repositions the record within that one index's buckets (remove from old bucket if
  present, insert into new bucket keyed by current field value)".
\<close>

definition updateIndex :: "string \<Rightarrow> string \<Rightarrow> ref \<Rightarrow> store \<Rightarrow> store" where
  "updateIndex c f r s =
     s\<lparr>indexes := (indexes s)(c := (indexes s c)(f :=
        (\<lambda>v. if v = utils_get s r f
             then filter (\<lambda>x. x \<noteq> r) (indexes s c f v) @ [r]
             else filter (\<lambda>x. x \<noteq> r) (indexes s c f v))))\<rparr>"

text \<open>
  Modelled from the spec: \<^verbatim>\<open>SimpleStore.get\<close> is not among the sources. Section 4.2:
  \<^verbatim>\<open>get(id)\<close> gives the record stored under the identifier or undefined; a collection
  that cannot be found is a silent skip (section 7).
\<close>

definition store_get :: "store \<Rightarrow> string \<Rightarrow> val \<Rightarrow> ref option" where
  "store_get s c k = collections s c k"

text \<open>
  Modelled from the spec: \<^verbatim>\<open>utils.remove\<close> is not among the sources. Section 4.3, step 3,
  has the teardown "remove any member equal to child, or equal by identifier if child's
  identifier is known": the members that the predicate accepts leave the array. A slot
  that holds no array is left as it is.
\<close>

definition utils_remove :: "ref \<Rightarrow> string \<Rightarrow> (ref \<Rightarrow> bool) \<Rightarrow> store \<Rightarrow> store" where
  "utils_remove p f fn s =
     (case Record_get_link s p f of
        Many children \<Rightarrow> safeSetLink p f (Many (filter (\<lambda>child. \<not> fn child) children)) s
      | _ \<Rightarrow> s)"

text \<open>
  Modelled from the spec: \<^verbatim>\<open>Record.removeInverseRelation\<close> is not among the sources.
  Section 4.3, step 3: "remove child from current parent's inverse slot/collection
  (HasOne: clear slot if it equals child; HasMany: remove any member equal to child, or
  equal by identifier if child's identifier is known)".
\<close>

definition removeInverseRelation ::
  "ref \<Rightarrow> ref \<Rightarrow> val \<Rightarrow> relation_def \<Rightarrow> string \<Rightarrow> store \<Rightarrow> store" where
  "removeInverseRelation this currentParent id' inverseDef idAttr s =
     (if type inverseDef = hasOneType then
        (if Record_get_link s currentParent (localField inverseDef) = One this
         then safeSetLink currentParent (localField inverseDef) Unlinked s else s)
      else if type inverseDef = hasManyType then
        (if id' = Undefined
         then utils_remove currentParent (localField inverseDef) (\<lambda>child. child = this) s
         else utils_remove currentParent (localField inverseDef)
                (\<lambda>child. child = this \<or> id' = utils_get s child idAttr) s)
      else s)"

text \<open>
  Modelled from the spec: \<^verbatim>\<open>Record.setupInverseRelation\<close> is not among the sources.
  Section 4.3, step 4: "If inverse declared, insert child into new parent's inverse
  slot/collection". A to-one slot takes the child; a to-many slot gets the child appended,
  an empty slot counting as the empty collection.
\<close>

definition setupInverseRelation ::
  "ref \<Rightarrow> ref \<Rightarrow> val \<Rightarrow> relation_def \<Rightarrow> string \<Rightarrow> store \<Rightarrow> store" where
  "setupInverseRelation this record id' inverseDef idAttr s =
     (if type inverseDef = hasOneType then
        safeSetLink record (localField inverseDef) (One this) s
      else if type inverseDef = hasManyType then
        (case Record_get_link s record (localField inverseDef) of
           Many children \<Rightarrow> safeSetLink record (localField inverseDef) (Many (children @ [this])) s
         | Unlinked \<Rightarrow> safeSetLink record (localField inverseDef) (Many [this]) s
         | One x \<Rightarrow> s)
      else s)"

text \<open>
  \<^verbatim>\<open>record === current\<close> for the argument of a link setter and the content of the
  link slot. The argument is a record or \<^verbatim>\<open>undefined\<close> (\<^verbatim>\<open>None\<close>); \<^verbatim>\<open>null\<close>, which
  the setters treat like \<^verbatim>\<open>undefined\<close> after this comparison, is left out.
\<close>

fun same_object :: "ref option \<Rightarrow> link \<Rightarrow> bool" where
  "same_object None Unlinked = True"
| "same_object (Some r) (One p) = (r = p)"
| "same_object _ _ = False"

section \<open>BelongsTo\<close>

text \<open>
  \<^verbatim>\<open>BelongsToRelation.createChildRecord\<close>: it throws at once. A fallible operation
  returns its outcome together with the store it leaves behind.
\<close>

definition createChildRecord :: "store \<Rightarrow> (error + unit) \<times> store" where
  "createChildRecord s =
     (Inl (Error ''\"BelongsTo\" relation does not support child creation as it cannot have children.''), s)"

text \<open>
  The \<^verbatim>\<open>set\<close> of the descriptor that \<^verbatim>\<open>createDescriptor\<close> of BelongsTo.js returns
  (lines 67 to 109): the value returned and the store afterwards. A slot that holds an
  array is truthy but no record, so the teardown of line 80 has no record to work on.
\<close>

definition belongsTo_set ::
  "descriptor_env \<Rightarrow> ref \<Rightarrow> ref option \<Rightarrow> store \<Rightarrow> ref option \<times> store" where
  "belongsTo_set e this record s =
     (let currentParent = Record_get_link s this (localField (rdef e)) in
      if same_object record currentParent then (record, s)
      else
        let id' = utils_get s this (idAttribute (mapper e));
            inverseDef = getInverse e;
            s1 = (case (currentParent, inverseDef) of
                    (One p, Some idef) \<Rightarrow> removeInverseRelation this p id' idef (idAttribute (mapper e)) s
                  | _ \<Rightarrow> s)
        in (case record of
             Some r \<Rightarrow>
               let relatedId = utils_get s1 r (relatedIdAttribute e);
                   r' = (if relatedId \<noteq> Undefined \<and> truthy (Record_get_dollar s1 this)
                         then (case store_get s1 (relation (rdef e)) relatedId of
                                 Some st \<Rightarrow> st | None \<Rightarrow> r)
                         else r);
                   s2 = safeSetLink this (localField (rdef e)) (One r') s1;
                   s3 = safeSetProp this (foreignKey (rdef e)) relatedId s2;
                   s4 = updateIndex (name e) (foreignKey (rdef e)) this s3;
                   s5 = (case inverseDef of
                           Some idef \<Rightarrow> setupInverseRelation this r' id' idef (idAttribute (mapper e)) s4
                         | None \<Rightarrow> s4)
               in (Some r', s5)
           | None \<Rightarrow> (None, safeSetLink this (localField (rdef e)) Unlinked s1)))"

text \<open>
  The stores after each statement of that setter that writes, in the order of the
  source: line 80 (the store as it was when the line does not apply), then lines 95, 96,
  97 and 100, or line 106 alone. The identity case of line 71 writes nothing.
\<close>

definition belongsTo_set_steps ::
  "descriptor_env \<Rightarrow> ref \<Rightarrow> ref option \<Rightarrow> store \<Rightarrow> store list" where
  "belongsTo_set_steps e this record s =
     (let currentParent = Record_get_link s this (localField (rdef e)) in
      if same_object record currentParent then []
      else
        let id' = utils_get s this (idAttribute (mapper e));
            inverseDef = getInverse e;
            s1 = (case (currentParent, inverseDef) of
                    (One p, Some idef) \<Rightarrow> removeInverseRelation this p id' idef (idAttribute (mapper e)) s
                  | _ \<Rightarrow> s)
        in (case record of
             Some r \<Rightarrow>
               let relatedId = utils_get s1 r (relatedIdAttribute e);
                   r' = (if relatedId \<noteq> Undefined \<and> truthy (Record_get_dollar s1 this)
                         then (case store_get s1 (relation (rdef e)) relatedId of
                                 Some st \<Rightarrow> st | None \<Rightarrow> r)
                         else r);
                   s2 = safeSetLink this (localField (rdef e)) (One r') s1;
                   s3 = safeSetProp this (foreignKey (rdef e)) relatedId s2;
                   s4 = updateIndex (name e) (foreignKey (rdef e)) this s3;
                   s5 = (case inverseDef of
                           Some idef \<Rightarrow> setupInverseRelation this r' id' idef (idAttribute (mapper e)) s4
                         | None \<Rightarrow> s4)
               in [s1, s2, s3, s4, s5]
           | None \<Rightarrow> [s1, safeSetLink this (localField (rdef e)) Unlinked s1]))"

section \<open>The accessors on the record class\<close>

text \<open>Line 104 of \<^verbatim>\<open>defineMapper\<close>: \<^verbatim>\<open>function () { return this._get(path) }\<close>.\<close>

definition getter :: "string \<Rightarrow> ref \<Rightarrow> store \<Rightarrow> (error + link) \<times> store" where
  "getter field this s = (Inr (Record_get_link s this field), s)"

text \<open>
  Reading the link field of a relation whose descriptor brings no getter of its own, as
  those of BelongsTo.js and HasOne.js do (lines 113 to 123): the default getter, handed
  to \<^verbatim>\<open>def.get\<close> when there is one.
\<close>

definition installed_get :: "relation_def \<Rightarrow> ref \<Rightarrow> store \<Rightarrow> (error + link) \<times> store" where
  "installed_get d this s =
     (case def_get d of
        None \<Rightarrow> getter (localField d) this s
      | Some g \<Rightarrow> g this (getter (localField d) this) s)"

text \<open>
  Assigning the link field (lines 124 to 129): the setter of the descriptor, or
  \<^verbatim>\<open>def.set\<close> with
  \<^verbatim>\<open>(value) => origSet.call(this, value === undefined ? related : value)\<close>.
\<close>

definition installed_set ::
  "relation_def \<Rightarrow> (ref option \<Rightarrow> store \<Rightarrow> (error + ref option) \<times> store)
     \<Rightarrow> ref \<Rightarrow> ref option \<Rightarrow> store \<Rightarrow> (error + ref option) \<times> store" where
  "installed_set d origSet this related s =
     (case def_set d of
        None \<Rightarrow> origSet related s
      | Some f \<Rightarrow>
          f this related (\<lambda>value. origSet (case value of None \<Rightarrow> related | Some x \<Rightarrow> Some x)) s)"

text \<open>\<^verbatim>\<open>utils.set(this, localField, value)\<close> on a record with a BelongsTo relation.\<close>

definition belongsTo_assign ::
  "descriptor_env \<Rightarrow> ref \<Rightarrow> ref option \<Rightarrow> store \<Rightarrow> (error + ref option) \<times> store" where
  "belongsTo_assign e this related s =
     installed_set (rdef e)
       (\<lambda>value s'. case belongsTo_set e this value s' of (x, s'') \<Rightarrow> (Inr x, s''))
       this related s"

text \<open>A statement whose value is not used: its error, or nothing.\<close>

definition statement :: "(error + 'a) \<times> store \<Rightarrow> (error + unit) \<times> store" where
  "statement r = (case r of (Inl err, s) \<Rightarrow> (Inl err, s) | (Inr x, s) \<Rightarrow> (Inr (), s))"

text \<open>
  The \<^verbatim>\<open>set\<close> that \<^verbatim>\<open>createDescriptor\<close> puts on the foreign key field (lines 126 to
  162), for a record class that had no accessor on that field before
  (\<^verbatim>\<open>originalSet\<close> undefined). Line 130 reads the link field and lines 154 and 159
  assign it: both go through the accessors above, so an error of \<^verbatim>\<open>def.get\<close> or
  \<^verbatim>\<open>def.set\<close> ends the setter. Line 139 reads the collection of the parent, whose
  accessor is the one of HasMany.js; modelled from the spec, it gives the array in the
  slot (section 4.5).
\<close>

definition foreignKey_set ::
  "descriptor_env \<Rightarrow> ref \<Rightarrow> val \<Rightarrow> store \<Rightarrow> (error + unit) \<times> store" where
  "foreignKey_set e this v s0 =
     (case installed_get (rdef e) this s0 of
        (Inl err, s) \<Rightarrow> (Inl err, s)
      | (Inr currentParent, s) \<Rightarrow>
         (let id' = utils_get s this (idAttribute (mapper e));
              inverseDef = getInverse e;
              currentParentId = (case currentParent of
                                   One p \<Rightarrow> utils_get s p (relatedIdAttribute e)
                                 | _ \<Rightarrow> Undefined);
              s1 = (case (inverseDef, currentParent) of
                      (Some idef, One p) \<Rightarrow>
                        if currentParentId \<noteq> Undefined \<and> currentParentId \<noteq> v then
                          (if type idef = hasOneType then
                             safeSetLink p (localField idef) Unlinked s
                           else if type idef = hasManyType then
                             (if id' = Undefined
                              then utils_remove p (localField idef) (\<lambda>child. child = this) s
                              else utils_remove p (localField idef)
                                     (\<lambda>child. child = this
                                        \<or> id' = utils_get s child (idAttribute (mapper e))) s)
                           else s)
                        else s
                    | _ \<Rightarrow> s);
              s2 = safeSetProp this (foreignKey (rdef e)) v s1;
              s3 = updateIndex (name e) (foreignKey (rdef e)) this s2
          in if v = Undefined \<or> v = Null then
               (if currentParentId \<noteq> Undefined
                then statement (belongsTo_assign e this None s3) else (Inr (), s3))
             else if truthy (Record_get_dollar s3 this) then
               (case store_get s3 (relation (rdef e)) v of
                  Some storeRecord \<Rightarrow> statement (belongsTo_assign e this (Some storeRecord) s3)
                | None \<Rightarrow> (Inr (), s3))
             else (Inr (), s3)))"

section \<open>HasOne\<close>

text \<open>
  The \<^verbatim>\<open>set\<close> of the descriptor of HasOne.js (lines 39 to 70). Line 44 reads
  \<^verbatim>\<open>def.getInverse(mapper).localField\<close>: with no inverse this is a property read on
  \<^verbatim>\<open>undefined\<close>, a TypeError, thrown before anything is written.
\<close>

definition hasOne_set ::
  "descriptor_env \<Rightarrow> ref \<Rightarrow> ref option \<Rightarrow> store \<Rightarrow> (error + ref option) \<times> store" where
  "hasOne_set e this record s =
     (let current = Record_get_link s this (localField (rdef e)) in
      if same_object record current then (Inr record, s)
      else (case getInverse e of
        None \<Rightarrow> (Inl TypeError, s)
      | Some idef \<Rightarrow>
          let inverseLocalField = localField idef;
              s1 = (case current of
                      One c \<Rightarrow>
                        safeSetLink c inverseLocalField Unlinked
                          (updateIndex (relation (rdef e)) (foreignKey (rdef e)) c
                             (safeSetProp c (foreignKey (rdef e)) Undefined s))
                    | _ \<Rightarrow> s)
          in (case record of
               Some r \<Rightarrow>
                 let relatedId = utils_get s1 r (relatedIdAttribute e);
                     r' = (if relatedId \<noteq> Undefined
                           then (case store_get s1 (relation (rdef e)) relatedId of
                                   Some st \<Rightarrow> st | None \<Rightarrow> r)
                           else r);
                     s2 = safeSetLink this (localField (rdef e)) (One r') s1;
                     s3 = safeSetProp r' (foreignKey (rdef e)) (utils_get s2 this (idAttribute (mapper e))) s2;
                     s4 = updateIndex (relation (rdef e)) (foreignKey (rdef e)) r' s3;
                     s5 = safeSetLink r' inverseLocalField (One this) s4
                 in (Inr (Some r'), s5)
             | None \<Rightarrow> (Inr None, safeSetLink this (localField (rdef e)) Unlinked s1))))"

section \<open>DataStore\<close>

text \<open>
  A property descriptor as \<^verbatim>\<open>defineMapper\<close> and \<^verbatim>\<open>Object.defineProperty\<close> handle it:
  its getter and setter and its \<^verbatim>\<open>enumerable\<close> and \<^verbatim>\<open>configurable\<close> flags, each
  \<^verbatim>\<open>None\<close> when the object has no such key. An accessor is named after the code it runs:
  the one a \<^verbatim>\<open>createDescriptor\<close> supplied, the default getter of \<^verbatim>\<open>defineMapper\<close>, or
  a wrapper that hands the original, whatever it was, to \<^verbatim>\<open>def.get\<close> or \<^verbatim>\<open>def.set\<close>.
\<close>

datatype get_accessor = Get_own | Get_default | Get_def "get_accessor option"

datatype set_accessor = Set_own | Set_def "set_accessor option"

record descriptor =
  get_of :: "get_accessor option"
  set_of :: "set_accessor option"
  enumerable :: "bool option"
  configurable :: "bool option"

text \<open>The accessor properties of \<^verbatim>\<open>mapper.recordClass.prototype\<close>, by name.\<close>

type_synonym prototype = "string \<Rightarrow> descriptor option"

text \<open>
  An entry of \<^verbatim>\<open>relationshipTypes\<close> is read for its \<^verbatim>\<open>createDescriptor\<close> only, called as
  \<^verbatim>\<open>createDescriptor(mapper, def, name, self)\<close>. It is a function of whoever registered
  it: it may write to the prototype and to the store, it may throw, and it returns a
  descriptor or something falsy (\<^verbatim>\<open>None\<close>).
\<close>

type_synonym createDescriptor =
  "mapper \<Rightarrow> relation_def \<Rightarrow> string \<Rightarrow> prototype \<Rightarrow> store
     \<Rightarrow> (error + descriptor option) \<times> prototype \<times> store"

type_synonym registry = "string \<Rightarrow> createDescriptor option"

definition registerRelationshipType :: "string \<Rightarrow> createDescriptor \<Rightarrow> registry \<Rightarrow> registry" where
  "registerRelationshipType ty descr rt = rt(ty \<mapsto> descr)"

text \<open>The options object, as far as the constructor of \<^verbatim>\<open>DataStore\<close> looks at it. A key
  that is absent reads \<^verbatim>\<open>undefined\<close>.\<close>

record datastore_opts =
  opts_unlinkOnDestroy :: val

definition DATASTORE_DEFAULTS :: datastore_opts where
  "DATASTORE_DEFAULTS = \<lparr>opts_unlinkOnDestroy = Bool True\<rparr>"

text \<open>
  Modelled from the spec: \<^verbatim>\<open>utils.fillIn\<close> is not among the sources. The constructor's
  own comment is "Fill in any missing options with the defaults", and the documented
  default of \<^verbatim>\<open>unlinkOnDestroy\<close> is \<^verbatim>\<open>true\<close>.
\<close>

definition fillIn :: "datastore_opts \<Rightarrow> datastore_opts \<Rightarrow> datastore_opts" where
  "fillIn dest src =
     dest\<lparr>opts_unlinkOnDestroy :=
       (if opts_unlinkOnDestroy dest = Undefined then opts_unlinkOnDestroy src
        else opts_unlinkOnDestroy dest)\<rparr>"

record datastore =
  unlinkOnDestroy :: val
  relationshipTypes :: registry

text \<open>
  The constructor (lines 70 to 84). The registry holds the three \<^verbatim>\<open>createDescriptor\<close>
  functions as values; they are arguments here, in the order of the imports. What the
  ones of BelongsTo.js and HasOne.js build are the setters above; the index they create
  and the accessor they put on the foreign key field when they run are not part of this
  development. \<^verbatim>\<open>SimpleStore.call(this, opts)\<close> is not among the sources; modelled from
  the spec, the store is "gated by a configuration flag" (section 4.6): the instance
  carries the option it was constructed with.
\<close>

definition DataStore ::
  "createDescriptor \<Rightarrow> createDescriptor \<Rightarrow> createDescriptor \<Rightarrow> datastore_opts option \<Rightarrow> datastore" where
  "DataStore createBelongsToDescriptor createHasManyDescriptor createHasOneDescriptor opts =
     (let opts1 = (case opts of None \<Rightarrow> \<lparr>opts_unlinkOnDestroy = Undefined\<rparr> | Some given \<Rightarrow> given);
          opts2 = fillIn opts1 DATASTORE_DEFAULTS;
          rt = registerRelationshipType hasOneType createHasOneDescriptor
                 (registerRelationshipType hasManyType createHasManyDescriptor
                    (registerRelationshipType belongsToType createBelongsToDescriptor (\<lambda>_. None)))
      in \<lparr>unlinkOnDestroy = opts_unlinkOnDestroy opts2, relationshipTypes = rt\<rparr>)"

text \<open>Lines 112 to 129 of \<^verbatim>\<open>defineMapper\<close>: what happens to a descriptor before it is
  installed.\<close>

definition finish_descriptor :: "relation_def \<Rightarrow> descriptor \<Rightarrow> descriptor" where
  "finish_descriptor d descr =
     (let d1 = (if get_of descr = None then descr\<lparr>get_of := Some Get_default\<rparr> else descr);
          d2 = d1\<lparr>enumerable := Some (case def_enumerable d of None \<Rightarrow> False | Some b \<Rightarrow> b)\<rparr>;
          d3 = (if def_get d \<noteq> None then d2\<lparr>get_of := Some (Get_def (get_of d2))\<rparr> else d2)
      in if def_set d \<noteq> None then d3\<lparr>set_of := Some (Set_def (set_of d3))\<rparr> else d3)"

text \<open>
  \<^verbatim>\<open>Object.defineProperty\<close> on the prototype. A new property gets \<^verbatim>\<open>false\<close> for the
  flags the descriptor leaves out. An existing property takes the keys the descriptor
  has if it is configurable; if it is not, giving it other accessor functions is a
  TypeError. The accessors of a descriptor are taken to be new functions every time, as
  the default getter, the wrappers of \<^verbatim>\<open>defineMapper\<close> and the setters of BelongsTo.js
  and HasOne.js are.
\<close>

definition defineProperty :: "prototype \<Rightarrow> string \<Rightarrow> descriptor \<Rightarrow> error + prototype" where
  "defineProperty proto f d =
     (case proto f of
        None \<Rightarrow>
          Inr (proto(f \<mapsto> d\<lparr>enumerable := Some (enumerable d = Some True),
                              configurable := Some (configurable d = Some True)\<rparr>))
      | Some old \<Rightarrow>
          if configurable old = Some True then
            Inr (proto(f \<mapsto>
              \<lparr>get_of = (case get_of d of None \<Rightarrow> get_of old | Some g \<Rightarrow> Some g),
               set_of = (case set_of d of None \<Rightarrow> set_of old | Some g \<Rightarrow> Some g),
               enumerable = (case enumerable d of None \<Rightarrow> enumerable old | Some b \<Rightarrow> Some b),
               configurable = (case configurable d of None \<Rightarrow> configurable old | Some b \<Rightarrow> Some b)\<rparr>))
          else Inl TypeError)"

text \<open>
  Lines 106 to 110: the descriptor for one relation, if its kind is an own property of
  \<^verbatim>\<open>relationshipTypes\<close>; otherwise \<^verbatim>\<open>descriptor\<close> stays undefined.
\<close>

definition descriptor_for ::
  "registry \<Rightarrow> mapper \<Rightarrow> string \<Rightarrow> relation_def \<Rightarrow> prototype \<Rightarrow> store
     \<Rightarrow> (error + descriptor option) \<times> prototype \<times> store" where
  "descriptor_for rt m n d proto st =
     (case rt (type d) of Some cd \<Rightarrow> cd m d n proto st | None \<Rightarrow> (Inr None, proto, st))"

text \<open>
  The loop of \<^verbatim>\<open>defineMapper\<close> over \<^verbatim>\<open>mapper.relationList\<close> (lines 101 to 132), on the
  prototype of the record class and the store. An exception of \<^verbatim>\<open>createDescriptor\<close> or
  of \<^verbatim>\<open>Object.defineProperty\<close> ends it.
\<close>

fun defineLinks ::
  "registry \<Rightarrow> mapper \<Rightarrow> string \<Rightarrow> relation_def list \<Rightarrow> prototype \<Rightarrow> store
     \<Rightarrow> (error + unit) \<times> prototype \<times> store" where
  "defineLinks rt m n [] proto st = (Inr (), proto, st)"
| "defineLinks rt m n (d # ds) proto st =
     (case descriptor_for rt m n d proto st of
        (Inl err, proto1, st1) \<Rightarrow> (Inl err, proto1, st1)
      | (Inr None, proto1, st1) \<Rightarrow> defineLinks rt m n ds proto1 st1
      | (Inr (Some descr), proto1, st1) \<Rightarrow>
          (case defineProperty proto1 (localField d) (finish_descriptor d descr) of
             Inl err \<Rightarrow> (Inl err, proto1, st1)
           | Inr proto2 \<Rightarrow> defineLinks rt m n ds proto2 st1))"

text \<open>
  Modelled from the spec: \<^verbatim>\<open>SimpleStore.prototype.defineMapper\<close> is not among the
  sources. It builds the mapper with its relation list from what was declared, and
  \<^verbatim>\<open>defineMapper\<close> hands it the registry in \<^verbatim>\<open>opts._relationshipTypes\<close> "so that
  instantiator functions can be bound to the mapper" (lines 96 to 98). Section 4.1:
  "\<^verbatim>\<open>lookup(kind)\<close> fails with an UnknownRelationKind error if the kind was never
  registered"; section 7 counts the unregistered relation kind among the configuration
  errors.
\<close>

definition SimpleStore_defineMapper :: "registry \<Rightarrow> string \<Rightarrow> mapper \<Rightarrow> error + mapper" where
  "SimpleStore_defineMapper rt n declared =
     (case find (\<lambda>d. rt (type d) = None) (relationList declared) of
        Some d \<Rightarrow> Inl (ConfigurationError (type d))
      | None \<Rightarrow> Inr declared)"

text \<open>
  \<^verbatim>\<open>DataStore.defineMapper\<close> (lines 89 to 135), for options that bring no
  \<^verbatim>\<open>_relationshipTypes\<close> of their own: the mapper of \<^verbatim>\<open>SimpleStore\<close>, then the loop. The
  outcome comes with the prototype and the store as they are left.
\<close>

definition defineMapper ::
  "datastore \<Rightarrow> string \<Rightarrow> mapper \<Rightarrow> prototype \<Rightarrow> store \<Rightarrow> (error + mapper) \<times> prototype \<times> store" where
  "defineMapper self n declared proto st =
     (case SimpleStore_defineMapper (relationshipTypes self) n declared of
        Inl err \<Rightarrow> (Inl err, proto, st)
      | Inr m \<Rightarrow>
          (case defineLinks (relationshipTypes self) m n (relationList m) proto st of
             (Inl err, proto1, st1) \<Rightarrow> (Inl err, proto1, st1)
           | (Inr u, proto1, st1) \<Rightarrow> (Inr m, proto1, st1)))"

text \<open>
  \<^verbatim>\<open>utils.set(record, def.localField, value)\<close> assigns the link field and so runs what
  \<^verbatim>\<open>defineMapper\<close> installed for the relation in a store with the three kinds of the
  constructor: the setter of the kind, behind \<^verbatim>\<open>def.set\<close> if there is one. The
  environment is the one of that descriptor's closure. The setter of HasMany.js is a
  parameter. A relation of another kind is taken to have a plain field, which the
  assignment overwrites.
\<close>

type_synonym link_setter =
  "descriptor_env \<Rightarrow> ref \<Rightarrow> ref option \<Rightarrow> store \<Rightarrow> (error + ref option) \<times> store"

definition utils_set_link :: "link_setter \<Rightarrow> link_setter" where
  "utils_set_link hasMany_set e r v s =
     (if type (rdef e) = belongsToType then belongsTo_assign e r v s
      else if type (rdef e) = hasOneType then
        installed_set (rdef e) (\<lambda>value s'. hasOne_set e r value s') r v s
      else if type (rdef e) = hasManyType then
        installed_set (rdef e) (\<lambda>value s'. hasMany_set e r value s') r v s
      else (Inr v, safeSetLink r (localField (rdef e))
                     (case v of None \<Rightarrow> Unlinked | Some x \<Rightarrow> One x) s))"

text \<open>
  Modelled from the spec: \<^verbatim>\<open>utils.forEachRelation\<close> is not among the sources. With
  \<^verbatim>\<open>withAll\<close> set the callback runs "for every Relation Definition on the mapper"
  (section 4.6), in the order of the list. An exception ends the loop and is the outcome.
  This is the pass of \<^verbatim>\<open>destroy\<close> (lines 150 to 152).
\<close>

fun unlink_record ::
  "link_setter \<Rightarrow> descriptor_env list \<Rightarrow> ref \<Rightarrow> store \<Rightarrow> (error + unit) \<times> store" where
  "unlink_record hm [] record s = (Inr (), s)"
| "unlink_record hm (e # es) record s =
     (case utils_set_link hm e record None s of
        (Inl err, s') \<Rightarrow> (Inl err, s')
      | (Inr x, s') \<Rightarrow> unlink_record hm es record s')"

text \<open>\<^verbatim>\<open>records.forEach\<close> of \<^verbatim>\<open>destroyAll\<close> (lines 172 to 174), for one relation.\<close>

fun unlink_each ::
  "link_setter \<Rightarrow> descriptor_env \<Rightarrow> ref list \<Rightarrow> store \<Rightarrow> (error + unit) \<times> store" where
  "unlink_each hm e [] s = (Inr (), s)"
| "unlink_each hm e (record # records) s =
     (case utils_set_link hm e record None s of
        (Inl err, s') \<Rightarrow> (Inl err, s')
      | (Inr x, s') \<Rightarrow> unlink_each hm e records s')"

text \<open>The pass of \<^verbatim>\<open>destroyAll\<close> (lines 171 to 175): relations outside, records inside.\<close>

fun unlink_records ::
  "link_setter \<Rightarrow> descriptor_env list \<Rightarrow> ref list \<Rightarrow> store \<Rightarrow> (error + unit) \<times> store" where
  "unlink_records hm [] records s = (Inr (), s)"
| "unlink_records hm (e # es) records s =
     (case unlink_each hm e records s of
        (Inl err, s') \<Rightarrow> (Inl err, s')
      | (Inr x, s') \<Rightarrow> unlink_records hm es records s')"

text \<open>
  \<^verbatim>\<open>DataStore.destroy\<close>, from the point where \<^verbatim>\<open>SimpleStore.prototype.destroy\<close> has
  resolved: \<^verbatim>\<open>record\<close> is \<^verbatim>\<open>result.data\<close> or \<^verbatim>\<open>result\<close>, as \<^verbatim>\<open>opts.raw\<close> says, and
  \<^verbatim>\<open>None\<close> when nothing was destroyed. The relations are those of \<^verbatim>\<open>this.getMapper(name)\<close>.
\<close>

definition destroy ::
  "datastore \<Rightarrow> link_setter \<Rightarrow> descriptor_env list \<Rightarrow> ref option \<Rightarrow> store \<Rightarrow> (error + unit) \<times> store" where
  "destroy self hm rels record s =
     (case record of
        Some r \<Rightarrow> if truthy (unlinkOnDestroy self) then unlink_record hm rels r s else (Inr (), s)
      | None \<Rightarrow> (Inr (), s))"

text \<open>\<^verbatim>\<open>DataStore.destroyAll\<close>, likewise; \<^verbatim>\<open>records\<close> is an array or undefined.\<close>

definition destroyAll ::
  "datastore \<Rightarrow> link_setter \<Rightarrow> descriptor_env list \<Rightarrow> ref list option \<Rightarrow> store \<Rightarrow> (error + unit) \<times> store" where
  "destroyAll self hm rels records s =
     (case records of
        Some rs \<Rightarrow>
          if rs \<noteq> [] \<and> truthy (unlinkOnDestroy self) then unlink_records hm rels rs s
          else (Inr (), s)
      | None \<Rightarrow> (Inr (), s))"

section \<open>Notions used to state the properties\<close>

text \<open>
  The two halves of the link setter of BelongsTo.js, named so that their order can be
  spoken about: lines 79 to 81 take the record out of the inverse side of its current
  parent, lines 95 to 101 write the link, the foreign key, the index and the inverse
  side of the new parent.
\<close>

definition teardown :: "descriptor_env \<Rightarrow> ref \<Rightarrow> store \<Rightarrow> store" where
  "teardown e this s =
     (case (Record_get_link s this (localField (rdef e)), getInverse e) of
        (One p, Some idef) \<Rightarrow>
          removeInverseRelation this p (utils_get s this (idAttribute (mapper e))) idef
            (idAttribute (mapper e)) s
      | _ \<Rightarrow> s)"

definition attach :: "descriptor_env \<Rightarrow> ref \<Rightarrow> val \<Rightarrow> ref \<Rightarrow> val \<Rightarrow> store \<Rightarrow> store" where
  "attach e this id' r relatedId s1 =
     (let s4 = updateIndex (name e) (foreignKey (rdef e)) this
                 (safeSetProp this (foreignKey (rdef e)) relatedId
                    (safeSetLink this (localField (rdef e)) (One r) s1))
      in case getInverse e of
           Some idef \<Rightarrow> setupInverseRelation this r id' idef (idAttribute (mapper e)) s4
         | None \<Rightarrow> s4)"

text \<open>Lines 135 to 146 of the foreign key setter: its own teardown of the inverse side.\<close>

definition fk_teardown :: "descriptor_env \<Rightarrow> ref \<Rightarrow> val \<Rightarrow> store \<Rightarrow> store" where
  "fk_teardown e this v s =
     (case (getInverse e, Record_get_link s this (localField (rdef e))) of
        (Some idef, One p) \<Rightarrow>
          if utils_get s p (relatedIdAttribute e) \<noteq> Undefined
             \<and> utils_get s p (relatedIdAttribute e) \<noteq> v then
            (if type idef = hasOneType then
               safeSetLink p (localField idef) Unlinked s
             else if type idef = hasManyType then
               (if utils_get s this (idAttribute (mapper e)) = Undefined
                then utils_remove p (localField idef) (\<lambda>child. child = this) s
                else utils_remove p (localField idef)
                       (\<lambda>child. child = this
                          \<or> utils_get s this (idAttribute (mapper e))
                              = utils_get s child (idAttribute (mapper e))) s)
             else s)
          else s
      | _ \<Rightarrow> s)"

text \<open>How often a record occurs in a link slot, and the records a slot refers to.\<close>

fun occurrences :: "ref \<Rightarrow> link \<Rightarrow> nat" where
  "occurrences c Unlinked = 0"
| "occurrences c (One r) = (if r = c then 1 else 0)"
| "occurrences c (Many rs) = count_list rs c"

fun link_refs :: "link \<Rightarrow> ref set" where
  "link_refs Unlinked = {}"
| "link_refs (One r) = {r}"
| "link_refs (Many rs) = set rs"

text \<open>
  A slot fits an inverse definition when it holds what a relation of that kind keeps
  there: at most one record for hasOne, an array or nothing for hasMany.
\<close>

definition slot_fits :: "relation_def \<Rightarrow> link \<Rightarrow> bool" where
  "slot_fits idef l =
     (if type idef = hasOneType then (case l of Many cs \<Rightarrow> False | _ \<Rightarrow> True)
      else if type idef = hasManyType then (case l of One x \<Rightarrow> False | _ \<Rightarrow> True)
      else False)"

text \<open>
  The to-one inverse slot of the current parent of a record is in order when it is empty
  or holds that record.
\<close>

definition to_one_slot_ok :: "descriptor_env \<Rightarrow> ref \<Rightarrow> store \<Rightarrow> bool" where
  "to_one_slot_ok e c s =
     (case (getInverse e, Record_get_link s c (localField (rdef e))) of
        (Some idef, One p1) \<Rightarrow>
          type idef \<noteq> hasOneType
          \<or> Record_get_link s p1 (localField idef) = Unlinked
          \<or> Record_get_link s p1 (localField idef) = One c
      | _ \<Rightarrow> True)"

text \<open>
  One store fades into another when nothing is gained: every scalar field is as it was
  or undefined, every link slot is as it was, or empty, or an array of records it held
  before, and the collections are the same.
\<close>

definition fades :: "store \<Rightarrow> store \<Rightarrow> bool" where
  "fades s s' =
     ((\<forall>x f. props (heap s' x) f = props (heap s x) f \<or> props (heap s' x) f = Undefined)
      \<and> (\<forall>x g. links (heap s' x) g = links (heap s x) g \<or> links (heap s' x) g = Unlinked
             \<or> (\<exists>xs ys. links (heap s x) g = Many xs \<and> links (heap s' x) g = Many ys
                   \<and> set ys \<subseteq> set xs))
      \<and> collections s' = collections s)"

text \<open>
  What clearing the link of relation \<open>e\<close> on record \<open>c\<close> does when it takes store \<open>s\<close> to
  \<open>s'\<close> in the way of the setters of the sources: the slot is empty afterwards, the store
  has faded, no record is written to but \<open>c\<close> and those the slot held, and, unless \<open>c\<close>
  was its own link, the other slots of \<open>c\<close> are as they were.
\<close>

definition clears :: "descriptor_env \<Rightarrow> ref \<Rightarrow> store \<Rightarrow> store \<Rightarrow> bool" where
  "clears e c s s' =
     (links (heap s' c) (localField (rdef e)) = Unlinked
      \<and> fades s s'
      \<and> (\<forall>x. x \<noteq> c \<longrightarrow> x \<notin> link_refs (links (heap s c) (localField (rdef e)))
             \<longrightarrow> heap s' x = heap s x)
      \<and> (c \<notin> link_refs (links (heap s c) (localField (rdef e)))
           \<longrightarrow> (\<forall>g. g \<noteq> localField (rdef e) \<longrightarrow> links (heap s' c) g = links (heap s c) g)))"

text \<open>
  The relations whose link the unlink pass can clear to the end: no \<^verbatim>\<open>def.set\<close> of the
  user in the way, a hasOne only with its inverse, and a hasMany only if the setter of
  HasMany.js, which is a parameter, clears in the same way.
\<close>

definition unlinkable :: "link_setter \<Rightarrow> descriptor_env \<Rightarrow> bool" where
  "unlinkable hm e =
     (def_set (rdef e) = None
      \<and> (type (rdef e) = hasOneType \<longrightarrow> getInverse e \<noteq> None)
      \<and> (type (rdef e) = hasManyType
           \<longrightarrow> (\<forall>c s. \<exists>s'. hm e c None s = (Inr None, s') \<and> clears e c s s')))"

text \<open>A relation without accessors of the user.\<close>

definition plain :: "relation_def \<Rightarrow> bool" where
  "plain d = (def_get d = None \<and> def_set d = None)"

section \<open>Example stores\<close>

definition empty_obj :: obj where
  "empty_obj = \<lparr>props = (\<lambda>f. Undefined), links = (\<lambda>f. Unlinked), dollar = Undefined\<rparr>"

text \<open>A comment belongs to a post through \<^verbatim>\<open>postId\<close>; a post has many comments.\<close>

definition comments_def :: relation_def where
  "comments_def = \<lparr>type = hasManyType, relation = ''comment'', foreignKey = ''postId'',
     localField = ''comments'', def_enumerable = None, def_get = None, def_set = None\<rparr>"

definition post_def :: relation_def where
  "post_def = \<lparr>type = belongsToType, relation = ''post'', foreignKey = ''postId'',
     localField = ''post'', def_enumerable = None, def_get = None, def_set = None\<rparr>"

definition comment_post :: descriptor_env where
  "comment_post = \<lparr>mapper = \<lparr>idAttribute = ''id'', relationList = [post_def]\<rparr>,
     rdef = post_def, name = ''comment'', relatedIdAttribute = ''id'',
     getInverse = Some comments_def\<rparr>"

text \<open>
  Posts 1 and 2 and comment 10 are in the store, comment 10 linked to post 1. Record 3
  is a detached object with the identifier of post 2, record 11 a comment that was never
  added to the store.
\<close>

definition ex_posts :: store where
  "ex_posts =
     \<lparr>heap = (\<lambda>r. empty_obj)
        (1 := \<lparr>props = (\<lambda>f. Undefined)(''id'' := Num 1),
               links = (\<lambda>f. Unlinked)(''comments'' := Many [10]), dollar = Num 1000\<rparr>,
         2 := \<lparr>props = (\<lambda>f. Undefined)(''id'' := Num 2),
               links = (\<lambda>f. Unlinked), dollar = Num 1000\<rparr>,
         3 := \<lparr>props = (\<lambda>f. Undefined)(''id'' := Num 2),
               links = (\<lambda>f. Unlinked), dollar = Undefined\<rparr>,
         10 := \<lparr>props = (\<lambda>f. Undefined)(''id'' := Num 10, ''postId'' := Num 1),
                links = (\<lambda>f. Unlinked)(''post'' := One 1), dollar = Num 1000\<rparr>,
         11 := \<lparr>props = (\<lambda>f. Undefined)(''id'' := Num 11),
                links = (\<lambda>f. Unlinked), dollar = Undefined\<rparr>),
      collections = (\<lambda>c. Map.empty)
        (''post'' := [Num 1 \<mapsto> 1, Num 2 \<mapsto> 2], ''comment'' := [Num 10 \<mapsto> 10]),
      indexes = (\<lambda>c f v. [])
        (''comment'' := (\<lambda>f v. [])(''postId'' := (\<lambda>v. [])(Num 1 := [10])))\<rparr>"

text \<open>The store after \<^verbatim>\<open>comment.postId = 99\<close> on comment 10; no post 99 is loaded.\<close>

definition ex_stale :: store where
  "ex_stale = snd (foreignKey_set comment_post 10 (Num 99) ex_posts)"

text \<open>A user has one profile through \<^verbatim>\<open>userId\<close>; a profile belongs to a user.\<close>

definition user_def :: relation_def where
  "user_def = \<lparr>type = belongsToType, relation = ''user'', foreignKey = ''userId'',
     localField = ''user'', def_enumerable = None, def_get = None, def_set = None\<rparr>"

definition profile_def :: relation_def where
  "profile_def = \<lparr>type = hasOneType, relation = ''profile'', foreignKey = ''userId'',
     localField = ''profile'', def_enumerable = None, def_get = None, def_set = None\<rparr>"

definition user_profile :: descriptor_env where
  "user_profile = \<lparr>mapper = \<lparr>idAttribute = ''id'', relationList = [profile_def]\<rparr>,
     rdef = profile_def, name = ''user'', relatedIdAttribute = ''id'',
     getInverse = Some user_def\<rparr>"

text \<open>The same relation when the profile mapper declares no relation back.\<close>

definition user_profile_one_sided :: descriptor_env where
  "user_profile_one_sided = user_profile\<lparr>getInverse := None\<rparr>"

text \<open>User 1 with profile 20, both in the store; record 21 is a new profile.\<close>

definition ex_users :: store where
  "ex_users =
     \<lparr>heap = (\<lambda>r. empty_obj)
        (1 := \<lparr>props = (\<lambda>f. Undefined)(''id'' := Num 1),
               links = (\<lambda>f. Unlinked)(''profile'' := One 20), dollar = Num 1000\<rparr>,
         20 := \<lparr>props = (\<lambda>f. Undefined)(''id'' := Num 20, ''userId'' := Num 1),
                links = (\<lambda>f. Unlinked)(''user'' := One 1), dollar = Num 1000\<rparr>,
         21 := \<lparr>props = (\<lambda>f. Undefined)(''id'' := Num 21),
                links = (\<lambda>f. Unlinked), dollar = Undefined\<rparr>),
      collections = (\<lambda>c. Map.empty)
        (''user'' := [Num 1 \<mapsto> 1], ''profile'' := [Num 20 \<mapsto> 20]),
      indexes = (\<lambda>c f v. [])
        (''profile'' := (\<lambda>f v. [])(''userId'' := (\<lambda>v. [])(Num 1 := [20])))\<rparr>"

text \<open>
  Stand-ins for example stores: a \<^verbatim>\<open>createDescriptor\<close> that hands out a descriptor with
  a setter and does nothing else, one that hands out nothing, and a hasMany setter for
  mappers that have no hasMany relation to set.
\<close>

definition setter_descriptor :: createDescriptor where
  "setter_descriptor m d n proto st =
     (Inr (Some \<lparr>get_of = None, set_of = Some Set_own, enumerable = None, configurable = None\<rparr>),
      proto, st)"

definition no_descriptor :: createDescriptor where
  "no_descriptor m d n proto st = (Inr None, proto, st)"

definition no_hasMany_set :: link_setter where
  "no_hasMany_set e r v s = (Inr v, s)"

definition ex_datastore :: datastore where
  "ex_datastore = DataStore setter_descriptor setter_descriptor setter_descriptor None"

text \<open>A mapper with a relation of a kind that nobody registered, and one whose only
  relation is of a registered kind.\<close>

definition tagged_mapper :: mapper where
  "tagged_mapper = \<lparr>idAttribute = ''id'', relationList =
     [\<lparr>type = ''manyToMany'', relation = ''tag'', foreignKey = ''tagId'',
       localField = ''tags'', def_enumerable = None, def_get = None, def_set = None\<rparr>]\<rparr>"

definition comment_mapper :: mapper where
  "comment_mapper = \<lparr>idAttribute = ''id'', relationList = [post_def]\<rparr>"

section \<open>What the helpers change\<close>

lemma types_distinct [simp]:
  "hasManyType \<noteq> hasOneType" "hasOneType \<noteq> hasManyType"
  "belongsToType \<noteq> hasOneType" "hasOneType \<noteq> belongsToType"
  "belongsToType \<noteq> hasManyType" "hasManyType \<noteq> belongsToType"
  by (simp_all add: hasManyType_def hasOneType_def belongsToType_def)

lemma safeSetLink_obs [simp]:
  "links (heap (safeSetLink r f v s) x) g = (if x = r \<and> g = f then v else links (heap s x) g)"
  "props (heap (safeSetLink r f v s) x) = props (heap s x)"
  "dollar (heap (safeSetLink r f v s) x) = dollar (heap s x)"
  "collections (safeSetLink r f v s) = collections s"
  "indexes (safeSetLink r f v s) = indexes s"
  by (simp_all add: safeSetLink_def)

lemma safeSetProp_obs [simp]:
  "props (heap (safeSetProp r f v s) x) g = (if x = r \<and> g = f then v else props (heap s x) g)"
  "links (heap (safeSetProp r f v s) x) = links (heap s x)"
  "dollar (heap (safeSetProp r f v s) x) = dollar (heap s x)"
  "collections (safeSetProp r f v s) = collections s"
  "indexes (safeSetProp r f v s) = indexes s"
  by (simp_all add: safeSetProp_def)

lemma safeSetLink_heap_other: "x \<noteq> r \<Longrightarrow> heap (safeSetLink r f v s) x = heap s x"
  by (simp add: safeSetLink_def)

lemma safeSetProp_heap_other: "x \<noteq> r \<Longrightarrow> heap (safeSetProp r f v s) x = heap s x"
  by (simp add: safeSetProp_def)

lemma updateIndex_obs [simp]:
  "heap (updateIndex cn f r s) = heap s"
  "collections (updateIndex cn f r s) = collections s"
  by (simp_all add: updateIndex_def)

lemma updateIndex_indexes:
  "indexes (updateIndex cn f r s) cn' f' v =
     (if cn' = cn \<and> f' = f then
        (if v = props (heap s r) f then filter (\<lambda>x. x \<noteq> r) (indexes s cn f v) @ [r]
         else filter (\<lambda>x. x \<noteq> r) (indexes s cn f v))
      else indexes s cn' f' v)"
  by (simp add: updateIndex_def utils_get_def)

lemma utils_remove_obs [simp]:
  "links (heap (utils_remove p f fn s) x) g =
     (if x = p \<and> g = f
      then (case links (heap s p) f of
              Many cs \<Rightarrow> Many (filter (\<lambda>c. \<not> fn c) cs) | l \<Rightarrow> l)
      else links (heap s x) g)"
  "props (heap (utils_remove p f fn s) x) = props (heap s x)"
  "dollar (heap (utils_remove p f fn s) x) = dollar (heap s x)"
  "collections (utils_remove p f fn s) = collections s"
  "indexes (utils_remove p f fn s) = indexes s"
  by (simp_all add: utils_remove_def Record_get_link_def split: link.split)

lemma removeInverseRelation_obs [simp]:
  "props (heap (removeInverseRelation c p i idef a s) x) = props (heap s x)"
  "dollar (heap (removeInverseRelation c p i idef a s) x) = dollar (heap s x)"
  "collections (removeInverseRelation c p i idef a s) = collections s"
  "indexes (removeInverseRelation c p i idef a s) = indexes s"
  by (simp_all add: removeInverseRelation_def)

lemma setupInverseRelation_obs [simp]:
  "props (heap (setupInverseRelation c p i idef a s) x) = props (heap s x)"
  "dollar (heap (setupInverseRelation c p i idef a s) x) = dollar (heap s x)"
  "collections (setupInverseRelation c p i idef a s) = collections s"
  "indexes (setupInverseRelation c p i idef a s) = indexes s"
  by (simp_all add: setupInverseRelation_def Record_get_link_def split: link.split)

lemma removeInverseRelation_links:
  "links (heap (removeInverseRelation c p i idef a s) x) g =
     (if x = p \<and> g = localField idef then
        (if type idef = hasOneType then
           (if links (heap s p) g = One c then Unlinked else links (heap s p) g)
         else if type idef = hasManyType then
           (case links (heap s p) g of
              Many cs \<Rightarrow>
                Many (filter (\<lambda>ch. \<not> (ch = c \<or> (i \<noteq> Undefined \<and> i = props (heap s ch) a))) cs)
            | l \<Rightarrow> l)
         else links (heap s p) g)
      else links (heap s x) g)"
  by (auto simp add: removeInverseRelation_def Record_get_link_def utils_get_def split: link.split)

lemma setupInverseRelation_links:
  "links (heap (setupInverseRelation c p i idef a s) x) g =
     (if x = p \<and> g = localField idef then
        (if type idef = hasOneType then One c
         else if type idef = hasManyType then
           (case links (heap s p) g of
              Many cs \<Rightarrow> Many (cs @ [c])
            | Unlinked \<Rightarrow> Many [c]
            | One y \<Rightarrow> One y)
         else links (heap s p) g)
      else links (heap s x) g)"
  by (auto simp add: setupInverseRelation_def Record_get_link_def split: link.split)

lemma removeInverseRelation_heap_other:
  "x \<noteq> p \<Longrightarrow> heap (removeInverseRelation c p i idef a s) x = heap s x"
  by (simp add: removeInverseRelation_def utils_remove_def safeSetLink_def split: link.split)

lemma setupInverseRelation_heap_other:
  "x \<noteq> p \<Longrightarrow> heap (setupInverseRelation c p i idef a s) x = heap s x"
  by (simp add: setupInverseRelation_def safeSetLink_def Record_get_link_def split: link.split)

lemma removeInverseRelation_shrinks:
  "link_refs (links (heap (removeInverseRelation c p i idef a s) x) g)
     \<subseteq> link_refs (links (heap s x) g)"
  by (auto simp add: removeInverseRelation_links split: link.splits)

lemma removeInverseRelation_keeps_Unlinked:
  "links (heap s x) g = Unlinked
     \<Longrightarrow> links (heap (removeInverseRelation c p i idef a s) x) g = Unlinked"
  by (auto simp add: removeInverseRelation_links)

text \<open>Two stores are the same store when every observation of them agrees.\<close>

lemma store_eqI:
  fixes a b :: store
  assumes "\<And>x g. links (heap a x) g = links (heap b x) g"
    and "\<And>x g. props (heap a x) g = props (heap b x) g"
    and "\<And>x. dollar (heap a x) = dollar (heap b x)"
    and "collections a = collections b"
    and "\<And>cn f v. indexes a cn f v = indexes b cn f v"
  shows "a = b"
proof -
  have "heap a x = heap b x" for x
  proof -
    have "links (heap a x) = links (heap b x)" "props (heap a x) = props (heap b x)"
      using assms(1,2) by auto
    then show ?thesis using assms(3) by (simp add: obj.equality)
  qed
  then have "heap a = heap b" by auto
  moreover have "indexes a = indexes b" using assms(5) by (intro ext)
  ultimately show ?thesis using assms(4) by (simp add: store.equality)
qed

section \<open>Misuse of a BelongsTo relation\<close>

text \<open>
  C7. Asking a BelongsTo relation to create a child record raises an error, and the
  store it leaves is the store it was given: no record, collection or index changes.
\<close>

theorem createChildRecord_raises_unchanged:
  "\<exists>msg. createChildRecord s = (Inl (Error msg), s)"
  by (simp add: createChildRecord_def)

section \<open>The link setter of BelongsTo, step by step\<close>

lemma teardown_obs [simp]:
  "props (heap (teardown e c s) x) = props (heap s x)"
  "dollar (heap (teardown e c s) x) = dollar (heap s x)"
  "collections (teardown e c s) = collections s"
  "indexes (teardown e c s) = indexes s"
  by (simp_all add: teardown_def split: link.split option.split)

lemma teardown_One:
  "links (heap s c) (localField (rdef e)) = One p1 \<Longrightarrow> getInverse e = Some idef \<Longrightarrow>
   teardown e c s =
     removeInverseRelation c p1 (props (heap s c) (idAttribute (mapper e))) idef
       (idAttribute (mapper e)) s"
  by (simp add: teardown_def Record_get_link_def utils_get_def)

lemma teardown_not_One:
  "\<forall>p1. links (heap s c) (localField (rdef e)) \<noteq> One p1 \<Longrightarrow> teardown e c s = s"
  by (cases "links (heap s c) (localField (rdef e))")
     (simp_all add: teardown_def Record_get_link_def)

lemma teardown_heap_other:
  "x \<notin> link_refs (links (heap s c) (localField (rdef e))) \<Longrightarrow> heap (teardown e c s) x = heap s x"
  by (auto simp add: teardown_def Record_get_link_def removeInverseRelation_heap_other
        split: link.splits option.splits)

lemma teardown_shrinks:
  "link_refs (links (heap (teardown e c s) x) g) \<subseteq> link_refs (links (heap s x) g)"
  using removeInverseRelation_shrinks
  by (auto simp add: teardown_def split: link.splits option.splits)

lemma teardown_keeps_Unlinked:
  "links (heap s x) g = Unlinked \<Longrightarrow> links (heap (teardown e c s) x) g = Unlinked"
  by (auto simp add: teardown_def removeInverseRelation_keeps_Unlinked
        split: link.splits option.splits)

lemma attach_obs:
  "props (heap (attach e c i r k s) x) g =
     (if x = c \<and> g = foreignKey (rdef e) then k else props (heap s x) g)"
  "dollar (heap (attach e c i r k s) x) = dollar (heap s x)"
  "collections (attach e c i r k s) = collections s"
  "indexes (attach e c i r k s) cn f v =
     (if cn = name e \<and> f = foreignKey (rdef e) then
        (if v = k then filter (\<lambda>x. x \<noteq> c) (indexes s cn f v) @ [c]
         else filter (\<lambda>x. x \<noteq> c) (indexes s cn f v))
      else indexes s cn f v)"
  by (simp_all add: attach_def Let_def updateIndex_indexes split: option.split)

lemma attach_links_cong:
  assumes "\<And>x g. links (heap s x) g = links (heap t x) g"
  shows "links (heap (attach e c i r k s) x) g = links (heap (attach e c j r k' t) x) g"
  using assms
  by (simp add: attach_def Let_def setupInverseRelation_links split: option.split)

lemma attach_link_this:
  "links (heap (attach e c i r k s) c) (localField (rdef e)) = One r"
  by (auto simp add: attach_def Let_def setupInverseRelation_links split: option.split)

lemma attach_heap_other:
  "x \<noteq> c \<Longrightarrow> x \<noteq> r \<Longrightarrow> heap (attach e c i r k s) x = heap s x"
  by (simp add: attach_def Let_def setupInverseRelation_heap_other safeSetLink_heap_other
        safeSetProp_heap_other split: option.split)

text \<open>Line 71: assigning the record that is already linked changes nothing.\<close>

lemma belongsTo_set_same:
  "same_object record (Record_get_link s c (localField (rdef e)))
     \<Longrightarrow> belongsTo_set e c record s = (record, s)"
  by (simp add: belongsTo_set_def)

text \<open>Any other record: teardown, then the choice of the instance, then attach.\<close>

lemma belongsTo_set_Some:
  assumes "Record_get_link s c (localField (rdef e)) \<noteq> One d"
  shows "belongsTo_set e c (Some d) s =
    (let s1 = teardown e c s;
         relatedId = utils_get s1 d (relatedIdAttribute e);
         r = (if relatedId \<noteq> Undefined \<and> truthy (Record_get_dollar s1 c)
              then (case store_get s1 (relation (rdef e)) relatedId of
                      Some st \<Rightarrow> st | None \<Rightarrow> d)
              else d)
     in (Some r, attach e c (utils_get s c (idAttribute (mapper e))) r relatedId s1))"
proof -
  have ns: "\<not> same_object (Some d) (Record_get_link s c (localField (rdef e)))"
    using assms by (cases "Record_get_link s c (localField (rdef e))") auto
  show ?thesis
    using ns
    by (cases "Record_get_link s c (localField (rdef e))"; cases "getInverse e")
       (simp_all add: belongsTo_set_def teardown_def attach_def Let_def)
qed

lemma belongsTo_set_Some_fst:
  assumes "Record_get_link s c (localField (rdef e)) \<noteq> One d"
  shows "fst (belongsTo_set e c (Some d) s) =
     Some (if utils_get s d (relatedIdAttribute e) \<noteq> Undefined \<and> truthy (Record_get_dollar s c)
           then (case store_get s (relation (rdef e)) (utils_get s d (relatedIdAttribute e)) of
                   Some st \<Rightarrow> st | None \<Rightarrow> d)
           else d)"
  by (simp add: belongsTo_set_Some [OF assms] Let_def utils_get_def Record_get_dollar_def
        store_get_def)

lemma belongsTo_set_Some_snd:
  assumes "Record_get_link s c (localField (rdef e)) \<noteq> One d"
    and "fst (belongsTo_set e c (Some d) s) = Some r"
  shows "snd (belongsTo_set e c (Some d) s) =
     attach e c (utils_get s c (idAttribute (mapper e))) r (utils_get s d (relatedIdAttribute e))
       (teardown e c s)"
  using assms(2)
  by (simp add: belongsTo_set_Some [OF assms(1)] Let_def utils_get_def)

lemma belongsTo_set_None:
  "belongsTo_set e c None s =
     (None, if Record_get_link s c (localField (rdef e)) = Unlinked then s
            else safeSetLink c (localField (rdef e)) Unlinked (teardown e c s))"
  by (cases "Record_get_link s c (localField (rdef e))"; cases "getInverse e")
     (simp_all add: belongsTo_set_def teardown_def Let_def)

lemma belongsTo_set_collections:
  "collections (snd (belongsTo_set e c record s)) = collections s"
proof (cases "record")
  case None
  then show ?thesis by (simp add: belongsTo_set_None)
next
  case (Some d)
  show ?thesis
  proof (cases "Record_get_link s c (localField (rdef e)) = One d")
    case True
    then show ?thesis using Some by (simp add: belongsTo_set_same)
  next
    case False
    then show ?thesis
      using Some by (simp add: belongsTo_set_Some Let_def attach_obs)
  qed
qed

lemma belongsTo_set_Some_link:
  assumes "Record_get_link s c (localField (rdef e)) \<noteq> One d"
    and "fst (belongsTo_set e c (Some d) s) = Some r"
  shows "Record_get_link (snd (belongsTo_set e c (Some d) s)) c (localField (rdef e)) = One r"
  by (simp add: belongsTo_set_Some_snd [OF assms] Record_get_link_def attach_link_this)

lemma belongsTo_set_Some_props:
  assumes "Record_get_link s c (localField (rdef e)) \<noteq> One d"
  shows "utils_get (snd (belongsTo_set e c (Some d) s)) x g =
     (if x = c \<and> g = foreignKey (rdef e) then utils_get s d (relatedIdAttribute e)
      else utils_get s x g)"
  by (simp add: belongsTo_set_Some [OF assms] Let_def utils_get_def attach_obs)

section \<open>The foreign key setter, step by step\<close>

lemma fk_teardown_obs [simp]:
  "props (heap (fk_teardown e c v s) x) = props (heap s x)"
  "dollar (heap (fk_teardown e c v s) x) = dollar (heap s x)"
  "collections (fk_teardown e c v s) = collections s"
  "indexes (fk_teardown e c v s) = indexes s"
  by (simp_all add: fk_teardown_def split: link.split option.split)

lemma fk_teardown_no_new_One:
  "links (heap (fk_teardown e c v s) x) g = One q \<Longrightarrow> links (heap s x) g = One q"
  by (auto simp add: fk_teardown_def split: option.splits link.splits if_splits)

text \<open>A relation without \<^verbatim>\<open>def.get\<close> and \<^verbatim>\<open>def.set\<close>: the accessors are the default
  getter and the link setter.\<close>

lemma installed_get_plain:
  "plain d \<Longrightarrow> installed_get d c s = (Inr (Record_get_link s c (localField d)), s)"
  by (simp add: plain_def installed_get_def getter_def)

lemma belongsTo_assign_plain:
  "plain (rdef e) \<Longrightarrow>
     statement (belongsTo_assign e c r s) = (Inr (), snd (belongsTo_set e c r s))"
  by (simp add: plain_def belongsTo_assign_def installed_set_def statement_def
        split: prod.split)

text \<open>The setter with its teardown (lines 135 to 146) folded into \<open>fk_teardown\<close>.\<close>

lemma foreignKey_set_alt:
  assumes "plain (rdef e)"
  shows "foreignKey_set e c v s =
     (Inr (),
      let currentParentId = (case Record_get_link s c (localField (rdef e)) of
                               One p \<Rightarrow> utils_get s p (relatedIdAttribute e)
                             | _ \<Rightarrow> Undefined);
          s3 = updateIndex (name e) (foreignKey (rdef e)) c
                 (safeSetProp c (foreignKey (rdef e)) v (fk_teardown e c v s))
      in if v = Undefined \<or> v = Null then
           (if currentParentId \<noteq> Undefined
            then snd (belongsTo_set e c None s3) else s3)
         else if truthy (Record_get_dollar s3 c) then
           (case store_get s3 (relation (rdef e)) v of
              Some storeRecord \<Rightarrow> snd (belongsTo_set e c (Some storeRecord) s3)
            | None \<Rightarrow> s3)
         else s3)"
  by (cases "getInverse e"; cases "Record_get_link s c (localField (rdef e))")
     (simp_all add: foreignKey_set_def installed_get_plain [OF assms]
        belongsTo_assign_plain [OF assms] fk_teardown_def Let_def split: option.split)

text \<open>Lines 156 to 161 when the store has no record under the new key: nothing more
  happens after the key and the index are written.\<close>

lemma foreignKey_set_unresolved:
  assumes "plain (rdef e)" and "v \<noteq> Undefined" "v \<noteq> Null"
    and "store_get s (relation (rdef e)) v = None"
  shows "foreignKey_set e c v s =
     (Inr (), updateIndex (name e) (foreignKey (rdef e)) c
       (safeSetProp c (foreignKey (rdef e)) v (fk_teardown e c v s)))"
  using assms(2-)
  by (simp add: foreignKey_set_alt [OF assms(1)] Let_def Record_get_dollar_def store_get_def)

text \<open>Likewise for a record that is in no collection (line 156).\<close>

lemma foreignKey_set_unmanaged:
  assumes "plain (rdef e)" and "v \<noteq> Undefined" "v \<noteq> Null"
    and "\<not> truthy (Record_get_dollar s c)"
  shows "foreignKey_set e c v s =
     (Inr (), updateIndex (name e) (foreignKey (rdef e)) c
       (safeSetProp c (foreignKey (rdef e)) v (fk_teardown e c v s)))"
  using assms(2-)
  by (simp add: foreignKey_set_alt [OF assms(1)] Let_def Record_get_dollar_def store_get_def)

text \<open>Lines 157 to 160 when the store has the record: the link setter takes over.\<close>

lemma foreignKey_set_resolved:
  assumes "plain (rdef e)" and "truthy (Record_get_dollar s c)"
    and "v \<noteq> Undefined" "v \<noteq> Null"
    and "store_get s (relation (rdef e)) v = Some p"
  shows "foreignKey_set e c v s =
     (Inr (), snd (belongsTo_set e c (Some p)
       (updateIndex (name e) (foreignKey (rdef e)) c
          (safeSetProp c (foreignKey (rdef e)) v (fk_teardown e c v s)))))"
  using assms(2-)
  by (simp add: foreignKey_set_alt [OF assms(1)] Let_def Record_get_dollar_def store_get_def)

text \<open>The example relations are plain.\<close>

lemma plain_examples [simp]:
  "plain (rdef comment_post)" "plain (rdef user_profile)" "plain (rdef user_profile_one_sided)"
  by (simp_all add: plain_def comment_post_def post_def_def user_profile_def
        user_profile_one_sided_def profile_def_def)

section \<open>A foreign key that resolves to no loaded parent\<close>

lemma ex_stale_obs:
  "Record_get_link ex_stale 10 ''post'' = One 1"
  "utils_get ex_stale 10 ''postId'' = Num 99"
  "utils_get ex_stale 1 ''id'' = Num 1"
  "Record_get_link ex_stale 1 ''comments'' = Many []"
  "store_get ex_stale ''post'' (Num 1) = Some 1"
  "truthy (Record_get_dollar ex_stale 10)"
proof -
  have none: "store_get ex_posts (relation (rdef comment_post)) (Num 99) = None"
    by (simp add: store_get_def ex_posts_def comment_post_def post_def_def)
  have ft: "fk_teardown comment_post 10 (Num 99) ex_posts =
      utils_remove 1 ''comments''
        (\<lambda>child. child = 10 \<or> Num 10 = utils_get ex_posts child ''id'') ex_posts"
    by (simp add: fk_teardown_def Record_get_link_def utils_get_def ex_posts_def
          comment_post_def post_def_def comments_def_def)
  have eq: "ex_stale =
      updateIndex ''comment'' ''postId'' 10
        (safeSetProp 10 ''postId'' (Num 99)
           (utils_remove 1 ''comments''
              (\<lambda>child. child = 10 \<or> Num 10 = utils_get ex_posts child ''id'') ex_posts))"
    using foreignKey_set_unresolved [OF plain_examples(1) _ _ none, of 10] ft
    by (simp add: ex_stale_def comment_post_def post_def_def)
  show "Record_get_link ex_stale 10 ''post'' = One 1"
    by (simp add: eq Record_get_link_def ex_posts_def)
  show "utils_get ex_stale 10 ''postId'' = Num 99"
    by (simp add: eq utils_get_def)
  show "utils_get ex_stale 1 ''id'' = Num 1"
    by (simp add: eq utils_get_def ex_posts_def)
  show "Record_get_link ex_stale 1 ''comments'' = Many []"
    by (simp add: eq Record_get_link_def ex_posts_def)
  show "store_get ex_stale ''post'' (Num 1) = Some 1"
    by (simp add: eq store_get_def ex_posts_def)
  show "truthy (Record_get_dollar ex_stale 10)"
    by (simp add: eq Record_get_dollar_def ex_posts_def)
qed

text \<open>
  C1, at the failing input. Comment 10 is linked to post 1 and is in the store.
  Assigning \<^verbatim>\<open>comment.postId = 99\<close>, with no post 99 loaded, returns without an error,
  takes the comment out of the comments of post 1 and writes the key, but leaves the
  link field on post 1: the link is defined and the foreign key is not the identifier
  of the linked record.
\<close>

theorem foreignKey_set_stale_link:
  "Record_get_link ex_posts 10 ''post'' = One 1
   \<and> utils_get ex_posts 10 ''postId'' = utils_get ex_posts 1 ''id''
   \<and> fst (foreignKey_set comment_post 10 (Num 99) ex_posts) = Inr ()
   \<and> Record_get_link (snd (foreignKey_set comment_post 10 (Num 99) ex_posts)) 10 ''post'' = One 1
   \<and> utils_get (snd (foreignKey_set comment_post 10 (Num 99) ex_posts)) 10 ''postId'' = Num 99
   \<and> utils_get (snd (foreignKey_set comment_post 10 (Num 99) ex_posts)) 1 ''id'' = Num 1
   \<and> Record_get_link (snd (foreignKey_set comment_post 10 (Num 99) ex_posts)) 1 ''comments''
       = Many []"
proof -
  have "Record_get_link ex_posts 10 ''post'' = One 1"
    by (simp add: Record_get_link_def ex_posts_def)
  moreover have "utils_get ex_posts 10 ''postId'' = utils_get ex_posts 1 ''id''"
    by (simp add: utils_get_def ex_posts_def)
  moreover have "store_get ex_posts (relation (rdef comment_post)) (Num 99) = None"
    by (simp add: store_get_def ex_posts_def comment_post_def post_def_def)
  then have "fst (foreignKey_set comment_post 10 (Num 99) ex_posts) = Inr ()"
    by (simp add: foreignKey_set_unresolved [OF plain_examples(1)])
  ultimately show ?thesis
    using ex_stale_obs by (simp add: ex_stale_def)
qed

section \<open>Round trip through the link field\<close>

text \<open>
  Counterexample to C2 as stated. In the store left by \<^verbatim>\<open>comment.postId = 99\<close> post 1
  is in its collection and still is the link of comment 10. Assigning
  \<^verbatim>\<open>comment.post = post1\<close> returns on line 72 without writing anything: the foreign key
  stays 99 while the identifier of post 1 is 1.
\<close>

theorem belongsTo_set_round_trip_counterexample:
  "store_get ex_stale ''post'' (utils_get ex_stale 1 ''id'') = Some 1
   \<and> utils_get (snd (belongsTo_set comment_post 10 (Some 1) ex_stale)) 10 ''postId'' = Num 99
   \<and> utils_get (snd (belongsTo_set comment_post 10 (Some 1) ex_stale)) 1 ''id'' = Num 1"
proof -
  have "same_object (Some 1) (Record_get_link ex_stale 10 (localField (rdef comment_post)))"
    using ex_stale_obs(1) by (simp add: comment_post_def post_def_def)
  then have "belongsTo_set comment_post 10 (Some 1) ex_stale = (Some 1, ex_stale)"
    by (rule belongsTo_set_same)
  then show ?thesis using ex_stale_obs by simp
qed

text \<open>
  C2, amended. Let parent P be in its collection under its identifier, and let child C
  be such that, if P already is the record in its link field, its foreign key already
  is the identifier of P. After \<^verbatim>\<open>setLink(C, P)\<close> the link field of C is P, the foreign
  key of C equals the identifier of P, and that identifier is what it was.
\<close>

theorem belongsTo_set_round_trip:
  assumes stored: "store_get s (relation (rdef e)) (utils_get s p (relatedIdAttribute e)) = Some p"
    and consistent: "Record_get_link s c (localField (rdef e)) = One p
      \<longrightarrow> utils_get s c (foreignKey (rdef e)) = utils_get s p (relatedIdAttribute e)"
  shows "Record_get_link (snd (belongsTo_set e c (Some p) s)) c (localField (rdef e)) = One p
    \<and> utils_get (snd (belongsTo_set e c (Some p) s)) c (foreignKey (rdef e))
        = utils_get (snd (belongsTo_set e c (Some p) s)) p (relatedIdAttribute e)
    \<and> utils_get (snd (belongsTo_set e c (Some p) s)) p (relatedIdAttribute e)
        = utils_get s p (relatedIdAttribute e)"
proof (cases "Record_get_link s c (localField (rdef e)) = One p")
  case True
  then have "belongsTo_set e c (Some p) s = (Some p, s)"
    by (simp add: belongsTo_set_same)
  with True consistent show ?thesis by simp
next
  case False
  have res: "fst (belongsTo_set e c (Some p) s) = Some p"
    using stored by (simp add: belongsTo_set_Some_fst [OF False])
  show ?thesis
    using belongsTo_set_Some_link [OF False res]
    by (simp add: belongsTo_set_Some_props [OF False])
qed

theorem belongsTo_set_round_trip_witness:
  "store_get ex_posts ''post'' (utils_get ex_posts 2 ''id'') = Some 2
   \<and> Record_get_link (snd (belongsTo_set comment_post 10 (Some 2) ex_posts)) 10 ''post'' = One 2
   \<and> utils_get (snd (belongsTo_set comment_post 10 (Some 2) ex_posts)) 10 ''postId''
       = utils_get (snd (belongsTo_set comment_post 10 (Some 2) ex_posts)) 2 ''id''
   \<and> utils_get (snd (belongsTo_set comment_post 10 (Some 2) ex_posts)) 2 ''id'' = Num 2"
proof -
  have stored: "store_get ex_posts (relation (rdef comment_post))
      (utils_get ex_posts 2 (relatedIdAttribute comment_post)) = Some 2"
    by (simp add: store_get_def utils_get_def ex_posts_def comment_post_def post_def_def)
  have consistent: "Record_get_link ex_posts 10 (localField (rdef comment_post)) = One 2
      \<longrightarrow> utils_get ex_posts 10 (foreignKey (rdef comment_post))
          = utils_get ex_posts 2 (relatedIdAttribute comment_post)"
    by (simp add: Record_get_link_def ex_posts_def comment_post_def post_def_def)
  have id2: "utils_get ex_posts 2 ''id'' = Num 2"
    by (simp add: utils_get_def ex_posts_def)
  show ?thesis
    using belongsTo_set_round_trip [OF stored consistent] stored id2
    by (simp add: comment_post_def post_def_def)
qed

section \<open>Preferring the stored instance\<close>

text \<open>
  Counterexample to C5 as stated. Comment 11 was never added to a collection, so its
  \<^verbatim>\<open>$\<close> entry is undefined. Record 3 is detached and has the identifier of post 2, which
  is stored. \<^verbatim>\<open>setLink(comment11, record3)\<close> skips the lookup of line 88 and links the
  detached record.
\<close>

theorem belongsTo_set_canonical_counterexample:
  "store_get ex_posts ''post'' (utils_get ex_posts 3 ''id'') = Some 2
   \<and> Record_get_link (snd (belongsTo_set comment_post 11 (Some 3) ex_posts)) 11 ''post'' = One 3"
proof -
  have ne: "Record_get_link ex_posts 11 (localField (rdef comment_post)) \<noteq> One 3"
    by (simp add: Record_get_link_def ex_posts_def comment_post_def post_def_def)
  have res: "fst (belongsTo_set comment_post 11 (Some 3) ex_posts) = Some 3"
    unfolding belongsTo_set_Some_fst [OF ne]
    by (simp add: Record_get_dollar_def ex_posts_def)
  have "store_get ex_posts ''post'' (utils_get ex_posts 3 ''id'') = Some 2"
    by (simp add: store_get_def utils_get_def ex_posts_def)
  then show ?thesis
    using belongsTo_set_Some_link [OF ne res] by (simp add: comment_post_def post_def_def)
qed

text \<open>
  C5, amended. Let child C be in a collection of the store (its \<^verbatim>\<open>$\<close> entry is truthy),
  let D be an object other than what the link field of C holds, with a defined
  identifier under which the parent collection stores P, and let D not be P. Then
  \<^verbatim>\<open>setLink(C, D)\<close> returns P and ends with the link field of C on P, not on D.
\<close>

theorem belongsTo_set_canonical:
  assumes managed: "truthy (Record_get_dollar s c)"
    and defined: "utils_get s d (relatedIdAttribute e) \<noteq> Undefined"
    and stored: "store_get s (relation (rdef e)) (utils_get s d (relatedIdAttribute e)) = Some p"
    and other: "Record_get_link s c (localField (rdef e)) \<noteq> One d"
    and detached: "d \<noteq> p"
  shows "fst (belongsTo_set e c (Some d) s) = Some p
    \<and> Record_get_link (snd (belongsTo_set e c (Some d) s)) c (localField (rdef e)) = One p
    \<and> Record_get_link (snd (belongsTo_set e c (Some d) s)) c (localField (rdef e)) \<noteq> One d"
proof -
  have res: "fst (belongsTo_set e c (Some d) s) = Some p"
    using managed defined stored by (simp add: belongsTo_set_Some_fst [OF other])
  show ?thesis
    using res belongsTo_set_Some_link [OF other res] detached by simp
qed

theorem belongsTo_set_canonical_witness:
  "truthy (Record_get_dollar ex_posts 10)
   \<and> store_get ex_posts ''post'' (utils_get ex_posts 3 ''id'') = Some 2
   \<and> fst (belongsTo_set comment_post 10 (Some 3) ex_posts) = Some 2
   \<and> Record_get_link (snd (belongsTo_set comment_post 10 (Some 3) ex_posts)) 10 ''post'' = One 2
   \<and> Record_get_link (snd (belongsTo_set comment_post 10 (Some 3) ex_posts)) 10 ''post'' \<noteq> One 3"
proof -
  have managed: "truthy (Record_get_dollar ex_posts 10)"
    by (simp add: Record_get_dollar_def ex_posts_def)
  have defined: "utils_get ex_posts 3 (relatedIdAttribute comment_post) \<noteq> Undefined"
    by (simp add: utils_get_def ex_posts_def comment_post_def)
  have stored: "store_get ex_posts (relation (rdef comment_post))
      (utils_get ex_posts 3 (relatedIdAttribute comment_post)) = Some 2"
    by (simp add: store_get_def utils_get_def ex_posts_def comment_post_def post_def_def)
  have other: "Record_get_link ex_posts 10 (localField (rdef comment_post)) \<noteq> One 3"
    by (simp add: Record_get_link_def ex_posts_def comment_post_def post_def_def)
  have detached: "(3::ref) \<noteq> 2" by simp
  show ?thesis
    using belongsTo_set_canonical [OF managed defined stored other detached] managed stored
    by (simp add: comment_post_def post_def_def)
qed

section \<open>A hasOne relation without its inverse\<close>

text \<open>
  C9, at the failing input. The profile mapper declares no relation back to the user.
  Assigning a new profile to \<^verbatim>\<open>user.profile\<close> reads \<^verbatim>\<open>localField\<close> of the undefined
  inverse on line 44: a TypeError, with the store untouched.
\<close>

theorem hasOne_set_one_sided_fails:
  "getInverse user_profile_one_sided = None
   \<and> hasOne_set user_profile_one_sided 1 (Some 21) ex_users = (Inl TypeError, ex_users)"
  by (simp add: hasOne_set_def user_profile_one_sided_def user_profile_def profile_def_def
        Record_get_link_def ex_users_def)

text \<open>The BelongsTo setter has the guards that the hasOne setter lacks: without an
  inverse it writes to the record it is called on and to the index, and to nothing else.\<close>

lemma belongsTo_set_one_sided:
  assumes "getInverse e = None" and "x \<noteq> c"
  shows "heap (snd (belongsTo_set e c record s)) x = heap s x"
proof -
  have td: "teardown e c s = s"
    using assms(1) by (simp add: teardown_def split: link.split)
  show ?thesis
  proof (cases "record")
    case None
    then show ?thesis
      using assms(2) by (simp add: belongsTo_set_None td safeSetLink_heap_other)
  next
    case (Some d)
    show ?thesis
    proof (cases "Record_get_link s c (localField (rdef e)) = One d")
      case True
      then show ?thesis using Some by (simp add: belongsTo_set_same)
    next
      case False
      then show ?thesis
        using Some assms
        by (simp add: belongsTo_set_Some Let_def td attach_def safeSetLink_heap_other
              safeSetProp_heap_other)
    qed
  qed
qed

section \<open>Reassigning a child to another parent\<close>

lemma count_list_filter_out: "\<not> P c \<Longrightarrow> count_list (filter P cs) c = 0"
  by (induction cs) auto

lemma occurrences_removeInverseRelation:
  assumes "slot_fits idef (links (heap s p) (localField idef))"
  shows "occurrences c (links (heap (removeInverseRelation c p i idef a s) p) (localField idef)) = 0"
proof (cases "type idef = hasOneType")
  case True
  with assms show ?thesis
    by (cases "links (heap s p) (localField idef)")
       (auto simp add: removeInverseRelation_links slot_fits_def)
next
  case False
  with assms have hm: "type idef = hasManyType"
    by (simp add: slot_fits_def split: if_splits)
  with False assms show ?thesis
    by (cases "links (heap s p) (localField idef)")
       (auto simp add: removeInverseRelation_links slot_fits_def count_list_filter_out)
qed

lemma occurrences_setupInverseRelation:
  assumes "slot_fits idef (links (heap s p) (localField idef))"
    and "occurrences c (links (heap s p) (localField idef)) = 0"
  shows "occurrences c (links (heap (setupInverseRelation c p i idef a s) p) (localField idef)) = 1"
proof (cases "type idef = hasOneType")
  case True
  then show ?thesis by (simp add: setupInverseRelation_links)
next
  case False
  with assms have hm: "type idef = hasManyType"
    by (simp add: slot_fits_def split: if_splits)
  with False assms show ?thesis
    by (cases "links (heap s p) (localField idef)")
       (auto simp add: setupInverseRelation_links slot_fits_def)
qed

text \<open>Records that are neither the child, nor its old parent, nor the parent the setter
  settles on, are not written to.\<close>

lemma belongsTo_set_Some_frame:
  assumes "Record_get_link s c (localField (rdef e)) \<noteq> One d"
    and "fst (belongsTo_set e c (Some d) s) = Some r"
    and "x \<noteq> c" "x \<noteq> r"
    and "x \<notin> link_refs (links (heap s c) (localField (rdef e)))"
  shows "heap (snd (belongsTo_set e c (Some d) s)) x = heap s x"
  using assms(3-5)
  by (simp add: belongsTo_set_Some_snd [OF assms(1,2)] attach_heap_other teardown_heap_other)

text \<open>The stores the setter goes through when it is given another record.\<close>

lemma belongsTo_set_steps_Some:
  assumes "Record_get_link s c (localField (rdef e)) \<noteq> One d"
    and "fst (belongsTo_set e c (Some d) s) = Some r"
  shows "belongsTo_set_steps e c (Some d) s =
    [teardown e c s,
     safeSetLink c (localField (rdef e)) (One r) (teardown e c s),
     safeSetProp c (foreignKey (rdef e)) (utils_get s d (relatedIdAttribute e))
       (safeSetLink c (localField (rdef e)) (One r) (teardown e c s)),
     updateIndex (name e) (foreignKey (rdef e)) c
       (safeSetProp c (foreignKey (rdef e)) (utils_get s d (relatedIdAttribute e))
          (safeSetLink c (localField (rdef e)) (One r) (teardown e c s))),
     attach e c (utils_get s c (idAttribute (mapper e))) r (utils_get s d (relatedIdAttribute e))
       (teardown e c s)]"
proof -
  have ns: "\<not> same_object (Some d) (Record_get_link s c (localField (rdef e)))"
    using assms(1) by (cases "Record_get_link s c (localField (rdef e))") auto
  have r: "(if utils_get s d (relatedIdAttribute e) \<noteq> Undefined \<and> truthy (Record_get_dollar s c)
           then (case store_get s (relation (rdef e)) (utils_get s d (relatedIdAttribute e)) of
                   Some st \<Rightarrow> st | None \<Rightarrow> d)
           else d) = r"
    using assms(2) by (simp add: belongsTo_set_Some_fst [OF assms(1)])
  have obs: "utils_get (teardown e c s) x k = utils_get s x k"
    "Record_get_dollar (teardown e c s) x = Record_get_dollar s x"
    "store_get (teardown e c s) n v = store_get s n v" for x k n v
    by (simp_all add: utils_get_def Record_get_dollar_def store_get_def)
  have "belongsTo_set_steps e c (Some d) s =
    (let s1 = teardown e c s;
         relatedId = utils_get s1 d (relatedIdAttribute e);
         r' = (if relatedId \<noteq> Undefined \<and> truthy (Record_get_dollar s1 c)
              then (case store_get s1 (relation (rdef e)) relatedId of
                      Some st \<Rightarrow> st | None \<Rightarrow> d)
              else d);
         s2 = safeSetLink c (localField (rdef e)) (One r') s1;
         s3 = safeSetProp c (foreignKey (rdef e)) relatedId s2;
         s4 = updateIndex (name e) (foreignKey (rdef e)) c s3
     in [s1, s2, s3, s4,
         attach e c (utils_get s c (idAttribute (mapper e))) r' relatedId s1])"
    using ns
    by (cases "Record_get_link s c (localField (rdef e))"; cases "getInverse e")
       (simp_all add: belongsTo_set_steps_def teardown_def attach_def Let_def)
  also have "\<dots> =
    [teardown e c s,
     safeSetLink c (localField (rdef e)) (One r) (teardown e c s),
     safeSetProp c (foreignKey (rdef e)) (utils_get s d (relatedIdAttribute e))
       (safeSetLink c (localField (rdef e)) (One r) (teardown e c s)),
     updateIndex (name e) (foreignKey (rdef e)) c
       (safeSetProp c (foreignKey (rdef e)) (utils_get s d (relatedIdAttribute e))
          (safeSetLink c (localField (rdef e)) (One r) (teardown e c s))),
     attach e c (utils_get s c (idAttribute (mapper e))) r (utils_get s d (relatedIdAttribute e))
       (teardown e c s)]"
    by (simp only: Let_def obs r)
  finally show ?thesis .
qed




section \<open>The two entry points of BelongsTo\<close>

text \<open>The teardown of the link setter, run after the first half of the foreign key
  setter, leaves the links that it leaves when run alone.\<close>

lemma teardown_after_fk_teardown:
  assumes fk: "foreignKey (rdef e) \<noteq> idAttribute (mapper e)"
    and ok: "to_one_slot_ok e c s"
  shows "links (heap (teardown e c
            (updateIndex (name e) (foreignKey (rdef e)) c
               (safeSetProp c (foreignKey (rdef e)) v (fk_teardown e c v s)))) x) g
         = links (heap (teardown e c s) x) g"
    (is "links (heap (teardown e c ?s3) x) g = _")
proof (cases "getInverse e")
  case None
  then show ?thesis
    by (simp add: teardown_def fk_teardown_def Record_get_link_def split: link.split)
next
  case (Some idef)
  let ?L = "localField (rdef e)"
  let ?g = "localField idef"
  let ?a = "idAttribute (mapper e)"
  note fk' = fk fk [symmetric]
  show ?thesis
  proof (cases "Record_get_link s c ?L")
    case Unlinked
    then have ft: "fk_teardown e c v s = s" using Some by (simp add: fk_teardown_def)
    from Unlinked show ?thesis
      by (simp add: teardown_not_One ft Record_get_link_def)
  next
    case (Many cs)
    then have ft: "fk_teardown e c v s = s" using Some by (simp add: fk_teardown_def)
    from Many show ?thesis
      by (simp add: teardown_not_One ft Record_get_link_def)
  next
    case (One p1)
    then have cur: "links (heap s c) ?L = One p1" by (simp add: Record_get_link_def)
    have rhs: "teardown e c s = removeInverseRelation c p1 (props (heap s c) ?a) idef ?a s"
      using teardown_One [OF cur Some] .
    show ?thesis
    proof (cases "utils_get s p1 (relatedIdAttribute e) \<noteq> Undefined
                  \<and> utils_get s p1 (relatedIdAttribute e) \<noteq> v")
      case False
      then have ft: "fk_teardown e c v s = s"
        using Some One by (auto simp add: fk_teardown_def)
      have cur3: "links (heap ?s3 c) ?L = One p1" using cur by (simp add: ft)
      show ?thesis
        unfolding rhs teardown_One [OF cur3 Some]
        by (simp add: removeInverseRelation_links fk' ft split: link.split)
    next
      case True
      note cond = this
      show ?thesis
      proof (cases "type idef = hasOneType")
        case True
        with Some One ok have slot:
          "links (heap s p1) ?g = Unlinked \<or> links (heap s p1) ?g = One c"
          by (simp add: to_one_slot_ok_def Record_get_link_def)
        have ft: "fk_teardown e c v s = safeSetLink p1 ?g Unlinked s"
          using Some One cond True by (simp add: fk_teardown_def)
        show ?thesis
        proof (cases "p1 = c \<and> ?g = ?L")
          case True
          then have "\<forall>q. links (heap ?s3 c) ?L \<noteq> One q" by (simp add: ft)
          then have lhs: "teardown e c ?s3 = ?s3" by (rule teardown_not_One)
          show ?thesis
            unfolding rhs lhs
            using True cur \<open>type idef = hasOneType\<close>
            by (auto simp add: ft removeInverseRelation_links)
        next
          case False
          then have cur3: "links (heap ?s3 c) ?L = One p1" using cur by (auto simp add: ft)
          show ?thesis
            unfolding rhs teardown_One [OF cur3 Some]
            using slot \<open>type idef = hasOneType\<close>
            by (auto simp add: removeInverseRelation_links fk' ft split: link.split)
        qed
      next
        case False
        note not_one = this
        show ?thesis
        proof (cases "type idef = hasManyType")
          case False
          then have ft: "fk_teardown e c v s = s"
            using Some One not_one by (auto simp add: fk_teardown_def)
          have cur3: "links (heap ?s3 c) ?L = One p1" using cur by (simp add: ft)
          show ?thesis
            unfolding rhs teardown_One [OF cur3 Some]
            by (simp add: removeInverseRelation_links fk' ft split: link.split)
        next
          case True
          have ft: "fk_teardown e c v s =
              utils_remove p1 ?g (\<lambda>child. child = c \<or>
                 (props (heap s c) ?a \<noteq> Undefined
                    \<and> props (heap s c) ?a = props (heap s child) ?a)) s"
            using Some One cond not_one True
            by (auto simp add: fk_teardown_def utils_get_def)
          have cur3: "links (heap ?s3 c) ?L = One p1" using cur by (auto simp add: ft)
          show ?thesis
            unfolding rhs teardown_One [OF cur3 Some]
            using True not_one
            by (cases "links (heap s p1) ?g")
               (auto simp add: removeInverseRelation_links fk' ft intro!: filter_cong)
        qed
      qed
    qed
  qed
qed

text \<open>A scalar field that already has the value is not changed by writing it.\<close>

lemma safeSetProp_same: "utils_get s c f = v \<Longrightarrow> safeSetProp c f v s = s"
  by (rule store_eqI) (auto simp add: utils_get_def)

text \<open>The first half of the foreign key setter does nothing when the key assigned is the
  identifier of the current parent.\<close>

lemma fk_teardown_same:
  assumes "Record_get_link s c (localField (rdef e)) = One p"
    and "utils_get s p (relatedIdAttribute e) = v"
  shows "fk_teardown e c v s = s"
  using assms by (simp add: fk_teardown_def split: option.split)


text \<open>
  The two entry points also part when the link field already holds the parent but the
  foreign key does not hold its identifier, as after \<^verbatim>\<open>comment.postId = 99\<close> above:
  assigning the link is the identity case of line 71 and leaves the key at 99, assigning
  the key writes it.
\<close>

lemma foreignKey_set_unsettled:
  "Record_get_link ex_stale 10 ''post'' = One 1
   \<and> store_get ex_stale ''post'' (utils_get ex_stale 1 ''id'') = Some 1
   \<and> utils_get (snd (foreignKey_set comment_post 10 (utils_get ex_stale 1 ''id'') ex_stale))
        10 ''postId'' = Num 1
   \<and> utils_get (snd (belongsTo_set comment_post 10 (Some 1) ex_stale)) 10 ''postId'' = Num 99"
proof -
  have sel: "localField (rdef comment_post) = ''post''" "relatedIdAttribute comment_post = ''id''"
    "relation (rdef comment_post) = ''post''" "foreignKey (rdef comment_post) = ''postId''"
    by (simp_all add: comment_post_def post_def_def)
  have link: "Record_get_link ex_stale 10 (localField (rdef comment_post)) = One 1"
    unfolding sel by (rule ex_stale_obs)
  have same: "belongsTo_set comment_post 10 (Some 1) ex_stale = (Some 1, ex_stale)"
    by (rule belongsTo_set_same) (simp add: link)
  have managed: "truthy (Record_get_dollar ex_stale 10)"
    by (rule ex_stale_obs)
  have pid: "utils_get ex_stale 1 (relatedIdAttribute comment_post) = Num 1"
    unfolding sel by (rule ex_stale_obs)
  have stored: "store_get ex_stale (relation (rdef comment_post)) (Num 1) = Some 1"
    unfolding sel by (rule ex_stale_obs)
  have ft: "fk_teardown comment_post 10 (Num 1) ex_stale = ex_stale"
    by (rule fk_teardown_same [OF link pid])
  let ?s3 = "updateIndex (name comment_post) (foreignKey (rdef comment_post)) 10
       (safeSetProp 10 (foreignKey (rdef comment_post)) (Num 1) ex_stale)"
  have link3: "same_object (Some 1) (Record_get_link ?s3 10 (localField (rdef comment_post)))"
    using link by (simp add: Record_get_link_def)
  have nz: "Num 1 \<noteq> Undefined" "Num 1 \<noteq> Null" by simp_all
  have run: "foreignKey_set comment_post 10 (Num 1) ex_stale =
      (Inr (), snd (belongsTo_set comment_post 10 (Some 1) ?s3))"
    using foreignKey_set_resolved [OF plain_examples(1) managed nz stored] unfolding ft .
  have "snd (foreignKey_set comment_post 10 (Num 1) ex_stale) = ?s3"
    unfolding run belongsTo_set_same [OF link3] by simp
  then have a: "utils_get (snd (foreignKey_set comment_post 10 (Num 1) ex_stale)) 10 ''postId''
      = Num 1"
    by (simp add: utils_get_def sel)
  have id1: "utils_get ex_stale 1 ''id'' = Num 1"
    by (rule ex_stale_obs)
  have "utils_get ex_stale 10 ''postId'' = Num 99"
    by (rule ex_stale_obs)
  then have b: "utils_get (snd (belongsTo_set comment_post 10 (Some 1) ex_stale)) 10 ''postId''
      = Num 99"
    unfolding same by simp
  show ?thesis
    unfolding id1 using a b ex_stale_obs(1,5) by blast
qed


text \<open>In the example store comment 10 is where the index on \<^verbatim>\<open>postId\<close> would put it.\<close>

lemma ex_posts_settled:
  "updateIndex (name comment_post) (foreignKey (rdef comment_post)) 10 ex_posts = ex_posts"
proof (rule store_eqI)
  fix cn f w
  show "indexes (updateIndex (name comment_post) (foreignKey (rdef comment_post)) 10 ex_posts) cn f w
      = indexes ex_posts cn f w"
    by (simp add: updateIndex_indexes comment_post_def post_def_def ex_posts_def)
qed simp_all


section \<open>The unlink pass after a destroy\<close>

text \<open>Clearing a hasOne link (lines 45 to 50 and 67 of HasOne.js).\<close>

lemma hasOne_set_None:
  assumes "getInverse e = Some idef"
  shows "hasOne_set e c None s =
     (Inr None,
      case Record_get_link s c (localField (rdef e)) of
        Unlinked \<Rightarrow> s
      | One ch \<Rightarrow> safeSetLink c (localField (rdef e)) Unlinked
                   (safeSetLink ch (localField idef) Unlinked
                      (updateIndex (relation (rdef e)) (foreignKey (rdef e)) ch
                         (safeSetProp ch (foreignKey (rdef e)) Undefined s)))
      | Many cs \<Rightarrow> safeSetLink c (localField (rdef e)) Unlinked s)"
  using assms
  by (cases "Record_get_link s c (localField (rdef e))")
     (simp_all add: hasOne_set_def Let_def)

lemma occurrences_link_refs: "occurrences c l = 0 \<longleftrightarrow> c \<notin> link_refs l"
  by (cases l) (simp_all add: count_list_0_iff)

text \<open>Fading is a preorder, and what is empty stays empty.\<close>

lemma fades_refl: "fades s s"
  by (simp add: fades_def)

lemma fades_props:
  "fades s s' \<Longrightarrow> props (heap s' x) f = props (heap s x) f \<or> props (heap s' x) f = Undefined"
  by (simp add: fades_def)

lemma fades_links:
  "fades s s' \<Longrightarrow> links (heap s' x) g = links (heap s x) g \<or> links (heap s' x) g = Unlinked
     \<or> (\<exists>xs ys. links (heap s x) g = Many xs \<and> links (heap s' x) g = Many ys
           \<and> set ys \<subseteq> set xs)"
  by (simp add: fades_def)

lemma fades_collections: "fades s s' \<Longrightarrow> collections s' = collections s"
  by (simp add: fades_def)

lemma fades_trans:
  assumes a: "fades s s1" and b: "fades s1 s2"
  shows "fades s s2"
  unfolding fades_def
proof (intro conjI allI)
  fix x f
  show "props (heap s2 x) f = props (heap s x) f \<or> props (heap s2 x) f = Undefined"
    using fades_props [OF a, of x f] fades_props [OF b, of x f] by auto
next
  fix x g
  show "links (heap s2 x) g = links (heap s x) g \<or> links (heap s2 x) g = Unlinked
     \<or> (\<exists>xs ys. links (heap s x) g = Many xs \<and> links (heap s2 x) g = Many ys
           \<and> set ys \<subseteq> set xs)"
    using fades_links [OF a, of x g] fades_links [OF b, of x g] by auto
next
  show "collections s2 = collections s"
    using fades_collections [OF a] fades_collections [OF b] by simp
qed

lemma fades_Unlinked:
  "fades s s' \<Longrightarrow> links (heap s x) g = Unlinked \<Longrightarrow> links (heap s' x) g = Unlinked"
  using fades_links [of s s' x g] by auto

lemma fades_Undefined:
  "fades s s' \<Longrightarrow> props (heap s x) f = Undefined \<Longrightarrow> props (heap s' x) f = Undefined"
  using fades_props [of s s' x f] by auto

lemma fades_link_refs:
  "fades s s' \<Longrightarrow> link_refs (links (heap s' x) g) \<subseteq> link_refs (links (heap s x) g)"
  using fades_links [of s s' x g] by auto

lemma fades_slot_fits:
  "fades s s' \<Longrightarrow> slot_fits idef (links (heap s x) g) \<Longrightarrow> slot_fits idef (links (heap s' x) g)"
  using fades_links [of s s' x g] by (auto simp add: slot_fits_def split: if_splits)

text \<open>The writes of the setters that take away.\<close>

lemma fades_safeSetLink: "fades s (safeSetLink r f Unlinked s)"
  by (simp add: fades_def)

lemma fades_safeSetProp: "fades s (safeSetProp r f Undefined s)"
  by (simp add: fades_def)

lemma fades_updateIndex: "fades s (updateIndex n f r s)"
  by (simp add: fades_def)

lemma fades_teardown: "fades s (teardown e c s)"
  unfolding fades_def
proof (intro conjI allI)
  fix x g
  show "links (heap (teardown e c s) x) g = links (heap s x) g
     \<or> links (heap (teardown e c s) x) g = Unlinked
     \<or> (\<exists>xs ys. links (heap s x) g = Many xs \<and> links (heap (teardown e c s) x) g = Many ys
           \<and> set ys \<subseteq> set xs)"
    by (cases "links (heap s x) g")
       (auto simp add: teardown_def removeInverseRelation_links split: link.splits option.splits)
qed simp_all

text \<open>One relation of the pass: the link of the record is cleared in the way described
  by \<open>clears\<close>.\<close>

lemma unlink_step:
  assumes "unlinkable hm e"
  shows "\<exists>s'. utils_set_link hm e c None s = (Inr None, s') \<and> clears e c s s'"
proof -
  from assms have noset: "def_set (rdef e) = None" by (simp add: unlinkable_def)
  show ?thesis
  proof (cases "type (rdef e) = belongsToType")
    case True
    let ?s' = "if Record_get_link s c (localField (rdef e)) = Unlinked then s
               else safeSetLink c (localField (rdef e)) Unlinked (teardown e c s)"
    have run: "utils_set_link hm e c None s = (Inr None, ?s')"
      using True noset
      by (simp add: utils_set_link_def belongsTo_assign_def installed_set_def belongsTo_set_None)
    have "fades s ?s'"
      using fades_trans [OF fades_teardown fades_safeSetLink] by (simp add: fades_refl)
    moreover have "links (heap ?s' c) (localField (rdef e)) = Unlinked"
      by (simp add: Record_get_link_def)
    moreover have "heap ?s' x = heap s x"
      if "x \<noteq> c" "x \<notin> link_refs (links (heap s c) (localField (rdef e)))" for x
      using that by (simp add: safeSetLink_heap_other teardown_heap_other)
    moreover have "links (heap ?s' c) g = links (heap s c) g"
      if "c \<notin> link_refs (links (heap s c) (localField (rdef e)))" "g \<noteq> localField (rdef e)" for g
      using that by (simp add: teardown_heap_other)
    ultimately have "clears e c s ?s'"
      unfolding clears_def by blast
    with run show ?thesis by blast
  next
    case False
    note not_belongsTo = this
    show ?thesis
    proof (cases "type (rdef e) = hasOneType")
      case True
      with assms obtain idef where inv: "getInverse e = Some idef"
        by (auto simp add: unlinkable_def)
      let ?L = "localField (rdef e)"
      let ?s' = "case Record_get_link s c ?L of
          Unlinked \<Rightarrow> s
        | One ch \<Rightarrow> safeSetLink c ?L Unlinked
                     (safeSetLink ch (localField idef) Unlinked
                        (updateIndex (relation (rdef e)) (foreignKey (rdef e)) ch
                           (safeSetProp ch (foreignKey (rdef e)) Undefined s)))
        | Many cs \<Rightarrow> safeSetLink c ?L Unlinked s"
      have run: "utils_set_link hm e c None s = (Inr None, ?s')"
        using True not_belongsTo noset
        by (simp add: utils_set_link_def installed_set_def hasOne_set_None [OF inv])
      have "clears e c s ?s'"
        unfolding clears_def fades_def
        by (cases "links (heap s c) ?L")
           (auto simp add: Record_get_link_def safeSetLink_heap_other safeSetProp_heap_other
              updateIndex_def)
      with run show ?thesis by blast
    next
      case False
      note not_hasOne = this
      show ?thesis
      proof (cases "type (rdef e) = hasManyType")
        case True
        with assms obtain s' where "hm e c None s = (Inr None, s')" "clears e c s s'"
          unfolding unlinkable_def by blast
        then show ?thesis
          using True not_belongsTo not_hasOne noset
          by (simp add: utils_set_link_def installed_set_def)
      next
        case False
        have "clears e c s (safeSetLink c (localField (rdef e)) Unlinked s)"
          unfolding clears_def fades_def by (auto simp add: safeSetLink_heap_other)
        then show ?thesis
          using False not_belongsTo not_hasOne by (simp add: utils_set_link_def)
      qed
    qed
  qed
qed

text \<open>What the step does to the other side of the link.\<close>

lemma unlink_step_hasOne:
  assumes "unlinkable hm e" and "type (rdef e) = hasOneType"
    and "links (heap s c) (localField (rdef e)) = One ch"
    and "getInverse e = Some idef"
  shows "props (heap (snd (utils_set_link hm e c None s)) ch) (foreignKey (rdef e)) = Undefined
     \<and> links (heap (snd (utils_set_link hm e c None s)) ch) (localField idef) = Unlinked"
proof -
  from assms(1) have noset: "def_set (rdef e) = None" by (simp add: unlinkable_def)
  have nb: "type (rdef e) \<noteq> belongsToType" using assms(2) by simp
  show ?thesis
    using assms(2,3) nb noset
    by (simp add: utils_set_link_def installed_set_def hasOne_set_None [OF assms(4)]
          Record_get_link_def)
qed

lemma unlink_step_belongsTo:
  assumes "unlinkable hm e" and "type (rdef e) = belongsToType"
    and "links (heap s c) (localField (rdef e)) = One p"
    and "getInverse e = Some idef"
    and "slot_fits idef (links (heap s p) (localField idef))"
  shows "c \<notin> link_refs (links (heap (snd (utils_set_link hm e c None s)) p) (localField idef))"
proof -
  from assms(1) have noset: "def_set (rdef e) = None" by (simp add: unlinkable_def)
  have run: "snd (utils_set_link hm e c None s)
      = safeSetLink c (localField (rdef e)) Unlinked (teardown e c s)"
    using assms(2,3) noset
    by (simp add: utils_set_link_def belongsTo_assign_def installed_set_def belongsTo_set_None
          Record_get_link_def)
  have "occurrences c (links (heap (teardown e c s) p) (localField idef)) = 0"
    unfolding teardown_One [OF assms(3,4)]
    by (rule occurrences_removeInverseRelation [OF assms(5)])
  then have "c \<notin> link_refs (links (heap (teardown e c s) p) (localField idef))"
    by (simp add: occurrences_link_refs)
  then show ?thesis
    unfolding run by simp
qed

text \<open>
  The whole pass over the relations of a record. It ends without an error, every link
  field of the record is empty, the store has faded, and the records written to are
  the record itself and those its link fields held. If no two relations share a link
  field and the record is not linked to itself, then the child of every hasOne link has
  lost its foreign key and its link back, and the parent of every BelongsTo link has
  lost the record from an inverse slot that fits.
\<close>

lemma unlink_record_effect:
  assumes "\<forall>e\<in>set es. unlinkable hm e"
  shows "\<exists>s'. unlink_record hm es c s = (Inr (), s')
     \<and> (\<forall>e\<in>set es. links (heap s' c) (localField (rdef e)) = Unlinked)
     \<and> fades s s'
     \<and> (\<forall>x. x \<noteq> c \<longrightarrow> (\<forall>e\<in>set es. x \<notin> link_refs (links (heap s c) (localField (rdef e))))
            \<longrightarrow> heap s' x = heap s x)
     \<and> (distinct (map (\<lambda>e. localField (rdef e)) es)
          \<and> (\<forall>e\<in>set es. c \<notin> link_refs (links (heap s c) (localField (rdef e))))
         \<longrightarrow> (\<forall>e\<in>set es. \<forall>ch idef. type (rdef e) = hasOneType
                  \<and> links (heap s c) (localField (rdef e)) = One ch \<and> getInverse e = Some idef
                \<longrightarrow> props (heap s' ch) (foreignKey (rdef e)) = Undefined
                    \<and> links (heap s' ch) (localField idef) = Unlinked)
           \<and> (\<forall>e\<in>set es. \<forall>p idef. type (rdef e) = belongsToType
                  \<and> links (heap s c) (localField (rdef e)) = One p \<and> getInverse e = Some idef
                  \<and> slot_fits idef (links (heap s p) (localField idef))
                \<longrightarrow> c \<notin> link_refs (links (heap s' p) (localField idef))))"
  using assms
proof (induction es arbitrary: s)
  case Nil
  then show ?case by (simp add: fades_refl)
next
  case (Cons e es)
  from Cons.prems have ue: "unlinkable hm e" and rest: "\<forall>e\<in>set es. unlinkable hm e"
    by simp_all
  from unlink_step [OF ue, of c s] obtain s1 where
    step: "utils_set_link hm e c None s = (Inr None, s1)" and cl: "clears e c s s1"
    by blast
  from cl have cleared1: "links (heap s1 c) (localField (rdef e)) = Unlinked"
    and fade1: "fades s s1"
    and frame1: "\<And>x. x \<noteq> c \<Longrightarrow> x \<notin> link_refs (links (heap s c) (localField (rdef e)))
                   \<Longrightarrow> heap s1 x = heap s x"
    and own1: "\<And>g. c \<notin> link_refs (links (heap s c) (localField (rdef e)))
                   \<Longrightarrow> g \<noteq> localField (rdef e) \<Longrightarrow> links (heap s1 c) g = links (heap s c) g"
    unfolding clears_def by blast+
  from Cons.IH [OF rest, of s1] obtain s2 where
    run: "unlink_record hm es c s1 = (Inr (), s2)"
    and cleared2: "\<And>e'. e' \<in> set es \<Longrightarrow> links (heap s2 c) (localField (rdef e')) = Unlinked"
    and fade2: "fades s1 s2"
    and frame2: "\<And>x. x \<noteq> c
                   \<Longrightarrow> (\<forall>e'\<in>set es. x \<notin> link_refs (links (heap s1 c) (localField (rdef e'))))
                   \<Longrightarrow> heap s2 x = heap s1 x"
    and eff2: "distinct (map (\<lambda>e. localField (rdef e)) es)
          \<and> (\<forall>e\<in>set es. c \<notin> link_refs (links (heap s1 c) (localField (rdef e))))
         \<longrightarrow> (\<forall>e\<in>set es. \<forall>ch idef. type (rdef e) = hasOneType
                  \<and> links (heap s1 c) (localField (rdef e)) = One ch \<and> getInverse e = Some idef
                \<longrightarrow> props (heap s2 ch) (foreignKey (rdef e)) = Undefined
                    \<and> links (heap s2 ch) (localField idef) = Unlinked)
           \<and> (\<forall>e\<in>set es. \<forall>p idef. type (rdef e) = belongsToType
                  \<and> links (heap s1 c) (localField (rdef e)) = One p \<and> getInverse e = Some idef
                  \<and> slot_fits idef (links (heap s1 p) (localField idef))
                \<longrightarrow> c \<notin> link_refs (links (heap s2 p) (localField idef)))"
    by blast
  have total: "unlink_record hm (e # es) c s = (Inr (), s2)"
    using step run by simp
  have s1_eq: "s1 = snd (utils_set_link hm e c None s)"
    using step by simp
  have cleared: "\<forall>e'\<in>set (e # es). links (heap s2 c) (localField (rdef e')) = Unlinked"
    using fades_Unlinked [OF fade2 cleared1] cleared2 by auto
  have fade: "fades s s2"
    by (rule fades_trans [OF fade1 fade2])
  have frame: "\<forall>x. x \<noteq> c
      \<longrightarrow> (\<forall>e'\<in>set (e # es). x \<notin> link_refs (links (heap s c) (localField (rdef e'))))
      \<longrightarrow> heap s2 x = heap s x"
  proof (intro allI impI)
    fix x
    assume xc: "x \<noteq> c"
      and out: "\<forall>e'\<in>set (e # es). x \<notin> link_refs (links (heap s c) (localField (rdef e')))"
    then have "heap s1 x = heap s x" using frame1 by simp
    moreover have "\<forall>e'\<in>set es. x \<notin> link_refs (links (heap s1 c) (localField (rdef e')))"
      using out fades_link_refs [OF fade1] by auto
    then have "heap s2 x = heap s1 x" using frame2 xc by simp
    ultimately show "heap s2 x = heap s x" by simp
  qed
  have effects:
    "(\<forall>e'\<in>set (e # es). \<forall>ch idef. type (rdef e') = hasOneType
          \<and> links (heap s c) (localField (rdef e')) = One ch \<and> getInverse e' = Some idef
        \<longrightarrow> props (heap s2 ch) (foreignKey (rdef e')) = Undefined
            \<and> links (heap s2 ch) (localField idef) = Unlinked)
     \<and> (\<forall>e'\<in>set (e # es). \<forall>p idef. type (rdef e') = belongsToType
          \<and> links (heap s c) (localField (rdef e')) = One p \<and> getInverse e' = Some idef
          \<and> slot_fits idef (links (heap s p) (localField idef))
        \<longrightarrow> c \<notin> link_refs (links (heap s2 p) (localField idef)))"
    if dist: "distinct (map (\<lambda>e. localField (rdef e)) (e # es))"
      and noself: "\<forall>e'\<in>set (e # es). c \<notin> link_refs (links (heap s c) (localField (rdef e')))"
  proof -
    have same: "links (heap s1 c) (localField (rdef e')) = links (heap s c) (localField (rdef e'))"
      if "e' \<in> set es" for e'
    proof -
      from dist that have "localField (rdef e') \<noteq> localField (rdef e)"
        by (auto simp add: image_iff)
      moreover from noself have "c \<notin> link_refs (links (heap s c) (localField (rdef e)))" by simp
      ultimately show ?thesis using own1 by simp
    qed
    have pre: "distinct (map (\<lambda>e. localField (rdef e)) es)
          \<and> (\<forall>e\<in>set es. c \<notin> link_refs (links (heap s1 c) (localField (rdef e))))"
      using dist noself same by simp
    note eff = eff2 [rule_format, OF pre]
    have one: "props (heap s2 ch) (foreignKey (rdef e')) = Undefined
            \<and> links (heap s2 ch) (localField idef) = Unlinked"
      if "e' \<in> set (e # es)" "type (rdef e') = hasOneType"
        "links (heap s c) (localField (rdef e')) = One ch" "getInverse e' = Some idef"
      for e' ch idef
    proof (cases "e' \<in> set es")
      case True
      with that same have "links (heap s1 c) (localField (rdef e')) = One ch" by simp
      with eff True that show ?thesis by blast
    next
      case False
      with that have "e' = e" by simp
      with that unlink_step_hasOne [OF ue, of s c ch idef]
      have "props (heap s1 ch) (foreignKey (rdef e')) = Undefined"
        "links (heap s1 ch) (localField idef) = Unlinked"
        unfolding s1_eq by simp_all
      then show ?thesis
        using fades_Undefined [OF fade2] fades_Unlinked [OF fade2] by blast
    qed
    have two: "c \<notin> link_refs (links (heap s2 p) (localField idef))"
      if "e' \<in> set (e # es)" "type (rdef e') = belongsToType"
        "links (heap s c) (localField (rdef e')) = One p" "getInverse e' = Some idef"
        "slot_fits idef (links (heap s p) (localField idef))"
      for e' p idef
    proof (cases "e' \<in> set es")
      case True
      with that same have "links (heap s1 c) (localField (rdef e')) = One p" by simp
      moreover have "slot_fits idef (links (heap s1 p) (localField idef))"
        using fades_slot_fits [OF fade1 that(5)] .
      ultimately show ?thesis using eff True that by blast
    next
      case False
      with that have "e' = e" by simp
      with that unlink_step_belongsTo [OF ue, of s c p idef]
      have "c \<notin> link_refs (links (heap s1 p) (localField idef))"
        unfolding s1_eq by simp
      then show ?thesis
        using fades_link_refs [OF fade2, of p "localField idef"] by blast
    qed
    from one two show ?thesis by blast
  qed
  show ?case
    using total cleared fade frame effects by blast
qed

text \<open>The pass of \<^verbatim>\<open>destroyAll\<close> for one relation, and for all of them.\<close>

lemma unlink_each_effect:
  assumes "unlinkable hm e"
  shows "\<exists>s'. unlink_each hm e rs s = (Inr (), s')
     \<and> (\<forall>r\<in>set rs. links (heap s' r) (localField (rdef e)) = Unlinked)
     \<and> fades s s'"
proof (induction rs arbitrary: s)
  case Nil
  then show ?case by (simp add: fades_refl)
next
  case (Cons r rs)
  from unlink_step [OF assms, of r s] obtain s1 where
    step: "utils_set_link hm e r None s = (Inr None, s1)" and cl: "clears e r s s1"
    by blast
  from cl have cleared1: "links (heap s1 r) (localField (rdef e)) = Unlinked"
    and fade1: "fades s s1"
    unfolding clears_def by blast+
  from Cons.IH [of s1] obtain s2 where
    run: "unlink_each hm e rs s1 = (Inr (), s2)"
    and cleared2: "\<forall>r\<in>set rs. links (heap s2 r) (localField (rdef e)) = Unlinked"
    and fade2: "fades s1 s2"
    by blast
  have "unlink_each hm e (r # rs) s = (Inr (), s2)"
    using step run by simp
  moreover have "\<forall>x\<in>set (r # rs). links (heap s2 x) (localField (rdef e)) = Unlinked"
    using fades_Unlinked [OF fade2 cleared1] cleared2 by simp
  ultimately show ?case
    using fades_trans [OF fade1 fade2] by blast
qed

lemma unlink_records_effect:
  assumes "\<forall>e\<in>set es. unlinkable hm e"
  shows "\<exists>s'. unlink_records hm es rs s = (Inr (), s')
     \<and> (\<forall>e\<in>set es. \<forall>r\<in>set rs. links (heap s' r) (localField (rdef e)) = Unlinked)
     \<and> fades s s'"
  using assms
proof (induction es arbitrary: s)
  case Nil
  then show ?case by (simp add: fades_refl)
next
  case (Cons e es)
  from Cons.prems have ue: "unlinkable hm e" and rest: "\<forall>e\<in>set es. unlinkable hm e"
    by simp_all
  from unlink_each_effect [OF ue, of rs s] obtain s1 where
    step: "unlink_each hm e rs s = (Inr (), s1)"
    and cleared1: "\<forall>r\<in>set rs. links (heap s1 r) (localField (rdef e)) = Unlinked"
    and fade1: "fades s s1"
    by blast
  from Cons.IH [OF rest, of s1] obtain s2 where
    run: "unlink_records hm es rs s1 = (Inr (), s2)"
    and cleared2: "\<forall>e\<in>set es. \<forall>r\<in>set rs. links (heap s2 r) (localField (rdef e)) = Unlinked"
    and fade2: "fades s1 s2"
    by blast
  have "unlink_records hm (e # es) rs s = (Inr (), s2)"
    using step run by simp
  moreover have "\<forall>e'\<in>set (e # es). \<forall>r\<in>set rs.
      links (heap s2 r) (localField (rdef e')) = Unlinked"
    using fades_Unlinked [OF fade2] cleared1 cleared2 by simp
  ultimately show ?case
    using fades_trans [OF fade1 fade2] by blast
qed

text \<open>The example store: destroying user 1 with the default options.\<close>

lemma unlinkable_examples:
  "unlinkable no_hasMany_set user_profile" "unlinkable no_hasMany_set comment_post"
  by (simp_all add: unlinkable_def user_profile_def profile_def_def comment_post_def post_def_def)

lemma ex_datastore_flag: "truthy (unlinkOnDestroy ex_datastore)"
  by (simp add: ex_datastore_def DataStore_def fillIn_def DATASTORE_DEFAULTS_def)

lemma destroy_user_1:
  "destroy ex_datastore no_hasMany_set [user_profile] (Some 1) ex_users =
     (Inr (),
      safeSetLink 1 ''profile'' Unlinked
        (safeSetLink 20 ''user'' Unlinked
           (updateIndex ''profile'' ''userId'' 20
              (safeSetProp 20 ''userId'' Undefined ex_users))))"
proof -
  have inv: "getInverse user_profile = Some user_def"
    by (simp add: user_profile_def)
  have cur: "Record_get_link ex_users 1 ''profile'' = One 20"
    by (simp add: Record_get_link_def ex_users_def)
  have sel: "localField (rdef user_profile) = ''profile''" "localField user_def = ''user''"
    "relation (rdef user_profile) = ''profile''" "foreignKey (rdef user_profile) = ''userId''"
    "type (rdef user_profile) = hasOneType" "def_set (rdef user_profile) = None"
    by (simp_all add: user_profile_def profile_def_def user_def_def)
  have step: "hasOne_set user_profile 1 None ex_users =
     (Inr None,
      safeSetLink 1 ''profile'' Unlinked
        (safeSetLink 20 ''user'' Unlinked
           (updateIndex ''profile'' ''userId'' 20
              (safeSetProp 20 ''userId'' Undefined ex_users))))"
    unfolding hasOne_set_None [OF inv] sel cur by simp
  show ?thesis
    using ex_datastore_flag
    by (simp add: destroy_def utils_set_link_def installed_set_def sel step del: One_nat_def)
qed

text \<open>
  Counterexample to C6 as stated. User 1 has the profile 20, whose \<^verbatim>\<open>userId\<close> is 1 and
  whose \<^verbatim>\<open>user\<close> is user 1. Destroying the user with the default options assigns
  undefined to \<^verbatim>\<open>user.profile\<close>, which runs the hasOne setter: the foreign key and the
  link field of the profile, another record, are both cleared.
\<close>

theorem destroy_unlink_scope_counterexample:
  "utils_get ex_users 20 ''userId'' = Num 1
   \<and> Record_get_link ex_users 20 ''user'' = One 1
   \<and> utils_get (snd (destroy ex_datastore no_hasMany_set [user_profile] (Some 1) ex_users))
        20 ''userId'' = Undefined
   \<and> Record_get_link (snd (destroy ex_datastore no_hasMany_set [user_profile] (Some 1) ex_users))
        20 ''user'' = Unlinked"
proof -
  have "utils_get ex_users 20 ''userId'' = Num 1" "Record_get_link ex_users 20 ''user'' = One 1"
    by (simp_all add: utils_get_def Record_get_link_def ex_users_def)
  then show ?thesis
    unfolding destroy_user_1 by (simp add: utils_get_def Record_get_link_def)
qed

text \<open>
  C6, amended. Let record C be destroyed with unlink-on-destroy enabled, no relation of
  its type having a \<^verbatim>\<open>set\<close> of the user in its definition, its hasOne relations having
  their inverse, and the setter of HasMany.js, for its hasMany relations, clearing a link
  in the way the other two setters do. The pass completes and leaves the link field of
  C undefined for every declared relation. Every record that is neither C nor held by
  one of these link fields of C is left as it was, and so are the collections. The
  records that were linked are written to: if no two relations share a link field and C
  is not linked to itself, then the child of every hasOne link of C has lost its foreign
  key and its link back, and the parent of every BelongsTo link of C, if its inverse slot
  holds what the inverse relation keeps there, holds C nowhere in it.
\<close>

theorem destroy_unlink_scope:
  assumes flag: "truthy (unlinkOnDestroy self)"
    and rels: "\<forall>e\<in>set es. unlinkable hm e"
  shows "\<exists>s'. destroy self hm es (Some c) s = (Inr (), s')
     \<and> (\<forall>e\<in>set es. Record_get_link s' c (localField (rdef e)) = Unlinked)
     \<and> (\<forall>x. x \<noteq> c
            \<longrightarrow> (\<forall>e\<in>set es. x \<notin> link_refs (Record_get_link s c (localField (rdef e))))
            \<longrightarrow> heap s' x = heap s x)
     \<and> collections s' = collections s
     \<and> (distinct (map (\<lambda>e. localField (rdef e)) es)
          \<and> (\<forall>e\<in>set es. c \<notin> link_refs (Record_get_link s c (localField (rdef e))))
         \<longrightarrow> (\<forall>e\<in>set es. \<forall>ch idef. type (rdef e) = hasOneType
                  \<and> Record_get_link s c (localField (rdef e)) = One ch
                  \<and> getInverse e = Some idef
                \<longrightarrow> utils_get s' ch (foreignKey (rdef e)) = Undefined
                    \<and> Record_get_link s' ch (localField idef) = Unlinked)
           \<and> (\<forall>e\<in>set es. \<forall>p idef. type (rdef e) = belongsToType
                  \<and> Record_get_link s c (localField (rdef e)) = One p
                  \<and> getInverse e = Some idef
                  \<and> slot_fits idef (Record_get_link s p (localField idef))
                \<longrightarrow> occurrences c (Record_get_link s' p (localField idef)) = 0))"
proof -
  from unlink_record_effect [OF rels, of c s] obtain s' where all:
    "unlink_record hm es c s = (Inr (), s')
     \<and> (\<forall>e\<in>set es. links (heap s' c) (localField (rdef e)) = Unlinked)
     \<and> fades s s'
     \<and> (\<forall>x. x \<noteq> c \<longrightarrow> (\<forall>e\<in>set es. x \<notin> link_refs (links (heap s c) (localField (rdef e))))
            \<longrightarrow> heap s' x = heap s x)
     \<and> (distinct (map (\<lambda>e. localField (rdef e)) es)
          \<and> (\<forall>e\<in>set es. c \<notin> link_refs (links (heap s c) (localField (rdef e))))
         \<longrightarrow> (\<forall>e\<in>set es. \<forall>ch idef. type (rdef e) = hasOneType
                  \<and> links (heap s c) (localField (rdef e)) = One ch \<and> getInverse e = Some idef
                \<longrightarrow> props (heap s' ch) (foreignKey (rdef e)) = Undefined
                    \<and> links (heap s' ch) (localField idef) = Unlinked)
           \<and> (\<forall>e\<in>set es. \<forall>p idef. type (rdef e) = belongsToType
                  \<and> links (heap s c) (localField (rdef e)) = One p \<and> getInverse e = Some idef
                  \<and> slot_fits idef (links (heap s p) (localField idef))
                \<longrightarrow> c \<notin> link_refs (links (heap s' p) (localField idef))))"
    ..
  note run = all [THEN conjunct1]
    and cleared = all [THEN conjunct2, THEN conjunct1]
    and fade = all [THEN conjunct2, THEN conjunct2, THEN conjunct1]
    and frame = all [THEN conjunct2, THEN conjunct2, THEN conjunct2, THEN conjunct1]
    and effects = all [THEN conjunct2, THEN conjunct2, THEN conjunct2, THEN conjunct2]
  have dr: "destroy self hm es (Some c) s = (Inr (), s')"
    using flag run by (simp add: destroy_def)
  have coll: "collections s' = collections s"
    by (rule fades_collections [OF fade])
  show ?thesis
    unfolding Record_get_link_def utils_get_def occurrences_link_refs
    apply (rule exI [of _ s'])
    apply (intro conjI)
        apply (rule dr)
       apply (rule cleared)
      apply (rule frame)
     apply (rule coll)
    apply (rule effects)
    done
qed

theorem destroy_unlink_scope_witness:
  "truthy (unlinkOnDestroy ex_datastore)
   \<and> unlinkable no_hasMany_set user_profile
   \<and> Record_get_link ex_users 1 ''profile'' = One 20
   \<and> utils_get ex_users 20 ''userId'' = Num 1
   \<and> (\<exists>s'. destroy ex_datastore no_hasMany_set [user_profile] (Some 1) ex_users = (Inr (), s')
          \<and> Record_get_link s' 1 ''profile'' = Unlinked
          \<and> heap s' 21 = heap ex_users 21
          \<and> collections s' = collections ex_users
          \<and> utils_get s' 20 ''userId'' = Undefined
          \<and> Record_get_link s' 20 ''user'' = Unlinked)
   \<and> unlinkable no_hasMany_set comment_post
   \<and> Record_get_link ex_posts 10 ''post'' = One 1
   \<and> occurrences 10 (Record_get_link ex_posts 1 ''comments'') = 1
   \<and> (\<exists>s'. destroy ex_datastore no_hasMany_set [comment_post] (Some 10) ex_posts = (Inr (), s')
          \<and> Record_get_link s' 10 ''post'' = Unlinked
          \<and> occurrences 10 (Record_get_link s' 1 ''comments'') = 0)"
proof -
  note flag = ex_datastore_flag
  have one: "unlinkable no_hasMany_set user_profile"
    and two: "unlinkable no_hasMany_set comment_post"
    by (rule unlinkable_examples)+
  have rels: "\<forall>e\<in>set [user_profile]. unlinkable no_hasMany_set e" using one by simp
  have rels2: "\<forall>e\<in>set [comment_post]. unlinkable no_hasMany_set e" using two by simp
  have sel: "localField (rdef user_profile) = ''profile''" "type (rdef user_profile) = hasOneType"
    "getInverse user_profile = Some user_def" "foreignKey (rdef user_profile) = ''userId''"
    "localField user_def = ''user''"
    by (simp_all add: user_profile_def profile_def_def user_def_def)
  have sel2: "localField (rdef comment_post) = ''post''" "type (rdef comment_post) = belongsToType"
    "getInverse comment_post = Some comments_def" "localField comments_def = ''comments''"
    by (simp_all add: comment_post_def post_def_def comments_def_def)
  have cur: "Record_get_link ex_users 1 ''profile'' = One 20"
    and key: "utils_get ex_users 20 ''userId'' = Num 1"
    by (simp_all add: Record_get_link_def utils_get_def ex_users_def)
  have cur2: "Record_get_link ex_posts 10 ''post'' = One 1"
    and occ2: "occurrences 10 (Record_get_link ex_posts 1 ''comments'') = 1"
    and fit2: "slot_fits comments_def (Record_get_link ex_posts 1 ''comments'')"
    by (simp_all add: Record_get_link_def slot_fits_def comments_def_def ex_posts_def)
  have first: "\<exists>s'. destroy ex_datastore no_hasMany_set [user_profile] (Some 1) ex_users
            = (Inr (), s')
          \<and> Record_get_link s' 1 ''profile'' = Unlinked
          \<and> heap s' 21 = heap ex_users 21
          \<and> collections s' = collections ex_users
          \<and> utils_get s' 20 ''userId'' = Undefined
          \<and> Record_get_link s' 20 ''user'' = Unlinked"
    using destroy_unlink_scope [OF flag rels, of 1 ex_users]
    apply (simp only: list.set ball_simps bex_simps insert_iff empty_iff list.map distinct.simps
             sel cur link_refs.simps singleton_iff simp_thms)
    apply (elim exE conjE)
    subgoal for s'
      apply (rule exI [of _ s'])
      apply (drule spec [of _ 21])
      apply (simp add: sel)
      done
    done
  have second: "\<exists>s'. destroy ex_datastore no_hasMany_set [comment_post] (Some 10) ex_posts
            = (Inr (), s')
          \<and> Record_get_link s' 10 ''post'' = Unlinked
          \<and> occurrences 10 (Record_get_link s' 1 ''comments'') = 0"
    using destroy_unlink_scope [OF flag rels2, of 10 ex_posts]
    apply (simp only: list.set ball_simps bex_simps insert_iff empty_iff list.map distinct.simps
             sel2 cur2 link_refs.simps singleton_iff simp_thms)
    apply (elim exE conjE)
    subgoal for s'
      apply (rule exI [of _ s'])
      using fit2 apply (simp add: sel2)
      done
    done
  from flag one two cur key cur2 occ2 first second show ?thesis
    by (intro conjI)
qed

section \<open>The default of unlinkOnDestroy\<close>

text \<open>
  C10. A DataStore constructed without options, or with options that leave
  \<^verbatim>\<open>unlinkOnDestroy\<close> out, has the flag \<^verbatim>\<open>true\<close>, and then \<^verbatim>\<open>destroy\<close> and
  \<^verbatim>\<open>destroyAll\<close> run the unlink pass on what was destroyed: for relations whose link
  can be cleared, both end without an error and with the link fields of every destroyed
  record undefined. Constructed with \<^verbatim>\<open>unlinkOnDestroy: false\<close>, both leave the store as
  it is.
\<close>

theorem unlinkOnDestroy_default:
  "unlinkOnDestroy (DataStore bd md od None) = Bool True
   \<and> unlinkOnDestroy (DataStore bd md od (Some \<lparr>opts_unlinkOnDestroy = Undefined\<rparr>)) = Bool True
   \<and> destroy (DataStore bd md od None) hm rels (Some r) s = unlink_record hm rels r s
   \<and> destroyAll (DataStore bd md od None) hm rels (Some (r # rs)) s
        = unlink_records hm rels (r # rs) s
   \<and> ((\<forall>e\<in>set rels. unlinkable hm e) \<longrightarrow>
         (\<exists>s'. destroy (DataStore bd md od None) hm rels (Some r) s = (Inr (), s')
            \<and> (\<forall>e\<in>set rels. Record_get_link s' r (localField (rdef e)) = Unlinked))
       \<and> (\<exists>s'. destroyAll (DataStore bd md od None) hm rels (Some (r # rs)) s = (Inr (), s')
            \<and> (\<forall>e\<in>set rels. \<forall>x\<in>set (r # rs).
                  Record_get_link s' x (localField (rdef e)) = Unlinked)))
   \<and> unlinkOnDestroy (DataStore bd md od (Some \<lparr>opts_unlinkOnDestroy = Bool False\<rparr>)) = Bool False
   \<and> destroy (DataStore bd md od (Some \<lparr>opts_unlinkOnDestroy = Bool False\<rparr>)) hm rels record s
        = (Inr (), s)
   \<and> destroyAll (DataStore bd md od (Some \<lparr>opts_unlinkOnDestroy = Bool False\<rparr>)) hm rels records s
        = (Inr (), s)"
proof -
  have flags: "unlinkOnDestroy (DataStore bd md od None) = Bool True"
    "unlinkOnDestroy (DataStore bd md od (Some \<lparr>opts_unlinkOnDestroy = Undefined\<rparr>)) = Bool True"
    "unlinkOnDestroy (DataStore bd md od (Some \<lparr>opts_unlinkOnDestroy = Bool False\<rparr>)) = Bool False"
    by (simp_all add: DataStore_def fillIn_def DATASTORE_DEFAULTS_def)
  have one: "destroy (DataStore bd md od None) hm rels (Some r) s = unlink_record hm rels r s"
    by (simp add: destroy_def flags)
  have all: "destroyAll (DataStore bd md od None) hm rels (Some (r # rs)) s
      = unlink_records hm rels (r # rs) s"
    by (simp add: destroyAll_def flags)
  have off: "destroy (DataStore bd md od (Some \<lparr>opts_unlinkOnDestroy = Bool False\<rparr>)) hm rels
        record s = (Inr (), s)"
    "destroyAll (DataStore bd md od (Some \<lparr>opts_unlinkOnDestroy = Bool False\<rparr>)) hm rels
        records s = (Inr (), s)"
    by (simp_all add: destroy_def destroyAll_def flags split: option.split)
  have pass: "(\<forall>e\<in>set rels. unlinkable hm e) \<longrightarrow>
       (\<exists>s'. destroy (DataStore bd md od None) hm rels (Some r) s = (Inr (), s')
            \<and> (\<forall>e\<in>set rels. Record_get_link s' r (localField (rdef e)) = Unlinked))
       \<and> (\<exists>s'. destroyAll (DataStore bd md od None) hm rels (Some (r # rs)) s = (Inr (), s')
            \<and> (\<forall>e\<in>set rels. \<forall>x\<in>set (r # rs).
                  Record_get_link s' x (localField (rdef e)) = Unlinked))"
  proof (intro impI conjI)
    assume ok: "\<forall>e\<in>set rels. unlinkable hm e"
    from unlink_record_effect [OF ok, of r s] obtain s' where
      "unlink_record hm rels r s = (Inr (), s')"
      "\<forall>e\<in>set rels. links (heap s' r) (localField (rdef e)) = Unlinked"
      by (elim exE conjE)
    then show "\<exists>s'. destroy (DataStore bd md od None) hm rels (Some r) s = (Inr (), s')
            \<and> (\<forall>e\<in>set rels. Record_get_link s' r (localField (rdef e)) = Unlinked)"
      unfolding one Record_get_link_def by (intro exI conjI)
  next
    assume ok: "\<forall>e\<in>set rels. unlinkable hm e"
    from unlink_records_effect [OF ok, of "r # rs" s] obtain s' where
      "unlink_records hm rels (r # rs) s = (Inr (), s')"
      "\<forall>e\<in>set rels. \<forall>x\<in>set (r # rs). links (heap s' x) (localField (rdef e)) = Unlinked"
      by (elim exE conjE)
    then show "\<exists>s'. destroyAll (DataStore bd md od None) hm rels (Some (r # rs)) s = (Inr (), s')
            \<and> (\<forall>e\<in>set rels. \<forall>x\<in>set (r # rs).
                  Record_get_link s' x (localField (rdef e)) = Unlinked)"
      unfolding all Record_get_link_def by (intro exI conjI)
  qed
  from flags one all off pass show ?thesis
    by (intro conjI)
qed

theorem unlinkOnDestroy_default_witness:
  "unlinkable no_hasMany_set user_profile
   \<and> Record_get_link ex_users 1 ''profile'' = One 20
   \<and> (\<exists>s'. destroy (DataStore setter_descriptor setter_descriptor setter_descriptor None)
              no_hasMany_set [user_profile] (Some 1) ex_users = (Inr (), s')
          \<and> Record_get_link s' 1 ''profile'' = Unlinked)
   \<and> (\<exists>s'. destroyAll (DataStore setter_descriptor setter_descriptor setter_descriptor None)
              no_hasMany_set [user_profile] (Some [1]) ex_users = (Inr (), s')
          \<and> Record_get_link s' 1 ''profile'' = Unlinked)
   \<and> Record_get_link
        (snd (destroy (DataStore setter_descriptor setter_descriptor setter_descriptor
                         (Some \<lparr>opts_unlinkOnDestroy = Bool False\<rparr>))
                no_hasMany_set [user_profile] (Some 1) ex_users)) 1 ''profile'' = One 20"
proof -
  have one: "unlinkable no_hasMany_set user_profile"
    by (rule unlinkable_examples)
  then have rels: "\<forall>e\<in>set [user_profile]. unlinkable no_hasMany_set e" by simp
  have cur: "Record_get_link ex_users 1 ''profile'' = One 20"
    by (simp add: Record_get_link_def ex_users_def)
  have sel: "localField (rdef user_profile) = ''profile''"
    by (simp add: user_profile_def profile_def_def)
  note inst = unlinkOnDestroy_default [of setter_descriptor setter_descriptor setter_descriptor
      no_hasMany_set "[user_profile]" 1 ex_users "[]" "Some 1" None]
  note pass = inst [THEN conjunct2, THEN conjunct2, THEN conjunct2, THEN conjunct2,
      THEN conjunct1, THEN mp, OF rels]
  note off = inst [THEN conjunct2, THEN conjunct2, THEN conjunct2, THEN conjunct2,
      THEN conjunct2, THEN conjunct2, THEN conjunct1]
  have a: "\<exists>s'. destroy (DataStore setter_descriptor setter_descriptor setter_descriptor None)
              no_hasMany_set [user_profile] (Some 1) ex_users = (Inr (), s')
          \<and> Record_get_link s' 1 ''profile'' = Unlinked"
    using pass [THEN conjunct1] by (simp add: sel)
  have b: "\<exists>s'. destroyAll (DataStore setter_descriptor setter_descriptor setter_descriptor None)
              no_hasMany_set [user_profile] (Some [1]) ex_users = (Inr (), s')
          \<and> Record_get_link s' 1 ''profile'' = Unlinked"
    using pass [THEN conjunct2] by (simp add: sel)
  have c: "Record_get_link
        (snd (destroy (DataStore setter_descriptor setter_descriptor setter_descriptor
                         (Some \<lparr>opts_unlinkOnDestroy = Bool False\<rparr>))
                no_hasMany_set [user_profile] (Some 1) ex_users)) 1 ''profile'' = One 20"
    unfolding off using cur by simp
  from one cur a b c show ?thesis
    by (intro conjI)
qed

section \<open>Relations of a kind that is not registered\<close>

text \<open>The loop over a list in two parts is the loop over the first part, then, unless that
  ended in an error, the loop over the second.\<close>

lemma defineLinks_append:
  "defineLinks rt m n (xs @ ys) proto st =
     (case defineLinks rt m n xs proto st of
        (Inl err, proto1, st1) \<Rightarrow> (Inl err, proto1, st1)
      | (Inr u, proto1, st1) \<Rightarrow> defineLinks rt m n ys proto1 st1)"
proof (induction xs arbitrary: proto st)
  case Nil
  then show ?case by simp
next
  case (Cons d xs)
  show ?case
  proof (cases "descriptor_for rt m n d proto st")
    case (fields r proto1 st1)
    show ?thesis
    proof (cases r)
      case (Inl err)
      with fields show ?thesis by simp
    next
      case (Inr found)
      show ?thesis
      proof (cases found)
        case None
        with fields Inr show ?thesis by (simp add: Cons.IH)
      next
        case (Some descr)
        with fields Inr show ?thesis
          by (cases "defineProperty proto1 (localField d) (finish_descriptor d descr)")
             (simp_all add: Cons.IH)
      qed
    qed
  qed
qed

lemma SimpleStore_defineMapper_unregistered:
  assumes "d \<in> set (relationList declared)" and "rt (type d) = None"
  shows "\<exists>k. rt k = None \<and> SimpleStore_defineMapper rt n declared = Inl (ConfigurationError k)"
proof (cases "find (\<lambda>d. rt (type d) = None) (relationList declared)")
  case None
  with assms show ?thesis by (auto simp add: find_None_iff)
next
  case (Some d')
  then have "rt (type d') = None" by (auto simp add: find_Some_iff)
  with Some show ?thesis by (simp add: SimpleStore_defineMapper_def)
qed

lemma SimpleStore_defineMapper_registered:
  assumes "\<forall>d\<in>set (relationList declared). rt (type d) \<noteq> None"
  shows "SimpleStore_defineMapper rt n declared = Inr declared"
proof -
  from assms have "find (\<lambda>d. rt (type d) = None) (relationList declared) = None"
    by (simp add: find_None_iff)
  then show ?thesis by (simp add: SimpleStore_defineMapper_def)
qed

text \<open>One relation in the middle of the list, when the relations before it went through.\<close>

lemma defineLinks_skip:
  assumes "defineLinks rt m n before proto st = (Inr (), proto1, st1)"
    and "rt (type d) = Some cd" and "cd m d n proto1 st1 = (Inr None, proto2, st2)"
  shows "defineLinks rt m n (before @ d # after) proto st = defineLinks rt m n after proto2 st2"
  using assms by (simp add: defineLinks_append descriptor_for_def)

lemma defineLinks_install:
  assumes "defineLinks rt m n before proto st = (Inr (), proto1, st1)"
    and "rt (type d) = Some cd" and "cd m d n proto1 st1 = (Inr (Some descr), proto2, st2)"
    and "proto2 (localField d) = None"
  shows "\<exists>installed. get_of installed \<noteq> None
     \<and> defineLinks rt m n (before @ d # after) proto st
         = defineLinks rt m n after (proto2(localField d \<mapsto> installed)) st2"
proof -
  let ?fin = "finish_descriptor d descr"
  let ?inst = "?fin\<lparr>enumerable := Some (enumerable ?fin = Some True),
                     configurable := Some (configurable ?fin = Some True)\<rparr>"
  have "get_of ?inst \<noteq> None"
    by (simp add: finish_descriptor_def Let_def)
  moreover have "defineLinks rt m n (before @ d # after) proto st
      = defineLinks rt m n after (proto2(localField d \<mapsto> ?inst)) st2"
    using assms by (simp add: defineLinks_append descriptor_for_def defineProperty_def)
  ultimately show ?thesis by blast
qed



end
